theory Spec2Isabelle
  imports Complex_Main
begin

section \<open>Stage controller logic (logic/stagecontrol_logic.py)\<close>

text \<open>
  The module drives a positioner (\<open>stage_hw\<close>), a photon counter (\<open>counter_logic\<close>) and
  Qt timers. They are collaborators outside the module, so the model records every call
  the module makes to them in a trace, in the order of the calls, and takes their answers
  from the environment:
  \<^item> the positioner answers each call from a script, one entry per call; an entry either
    returns a value or raises \<open>PositionerError\<close>; an exhausted script returns 0;
  \<^item> the counter's \<open>module_state()\<close> and its last smoothed count are given with each
    timer expiry;
  \<^item> \<open>QTimer.singleShot\<close> puts the callback into the list of pending timers.
  Count samples are of any linearly ordered type (floating-point NaN is outside the model).
\<close>

subsection \<open>Data\<close>

datatype axis = AxisX | AxisY | AxisZ

datatype config_key = Step_voltage | Frequency

datatype hw_call =
    SetOffsetVoltage axis int
  | SetStepParams axis int int
  | GetAxisConfig axis config_key
  | MoveSteps axis int
  | StartContinuousMotion axis bool
  | StopAxis axis
  | StopAll

datatype hw_reply = Returns int | Raises

datatype error = PositionerError | ValueError

datatype callback = OptimisationStep | VoltOptimisationStep | StartVoltOptimisation

datatype event =
    Hw hw_call
  | StartCount
  | StopCount
  | SigCountDataUpdated
  | SigOptimisationDone
  | LogError
  | LogDebug
  | Uncaught error

record 's stagecontrol =
  x_joystick_jog_running :: int
  y_joystick_jog_running :: int
  z_joystick_jog_running :: int
  abort :: bool
  sweep_length :: int
  v_sweep_length :: int
  current_step :: int
  current_v_step :: int
  sweep_counts :: "'s list"
  hw_script :: "hw_reply list"
  trace :: "event list"
  pending :: "(int \<times> callback) list"

record joystick_state =
  x_left :: real
  y_left :: real
  y_right :: real

type_synonym ('s, 'r) act = "'s stagecontrol \<Rightarrow> (error + 'r) \<times> 's stagecontrol"

subsection \<open>Effects\<close>

definition emit :: "event \<Rightarrow> 's stagecontrol \<Rightarrow> 's stagecontrol" where
  "emit e s = s\<lparr>trace := trace s @ [e]\<rparr>"

text \<open>A call to the positioner: recorded, then answered by the head of the script.\<close>

definition hw :: "hw_call \<Rightarrow> ('s, int) act" where
  "hw c s =
     (case hw_script s of
        [] \<Rightarrow> (Inr 0, emit (Hw c) s)
      | Returns v # rs \<Rightarrow> (Inr v, emit (Hw c) (s\<lparr>hw_script := rs\<rparr>))
      | Raises # rs \<Rightarrow> (Inl PositionerError, emit (Hw c) (s\<lparr>hw_script := rs\<rparr>)))"

definition ret :: "'r \<Rightarrow> ('s, 'r) act" where
  "ret r s = (Inr r, s)"

text \<open>Sequencing: an exception of the first action skips the second.\<close>

definition bnd :: "('s, 'a) act \<Rightarrow> ('a \<Rightarrow> ('s, 'b) act) \<Rightarrow> ('s, 'b) act" where
  "bnd m f s = (case m s of (Inl e, s') \<Rightarrow> (Inl e, s') | (Inr a, s') \<Rightarrow> f a s')"

definition seq :: "('s, 'a) act \<Rightarrow> ('s, 'b) act \<Rightarrow> ('s, 'b) act" where
  "seq m n = bnd m (\<lambda>_. n)"

text \<open>A state change that cannot raise (an assignment, a signal, a log line).\<close>

definition upd :: "('s stagecontrol \<Rightarrow> 's stagecontrol) \<Rightarrow> ('s, unit) act" where
  "upd f s = (Inr (), f s)"

text \<open>
  \<open>try: m  except PositionerError: h\<close>, where the handler falls through to the
  statement after the \<open>try\<close>; any other exception passes through.
\<close>

definition try_except :: "('s, 'a) act \<Rightarrow> ('s, unit) act \<Rightarrow> ('s, unit) act" where
  "try_except m h s =
     (case m s of
        (Inl PositionerError, s') \<Rightarrow> h s'
      | (Inl ValueError, s') \<Rightarrow> (Inl ValueError, s')
      | (Inr _, s') \<Rightarrow> (Inr (), s'))"

text \<open>
  \<open>try: m  except PositionerError: h; return\<close> followed by the rest \<open>k\<close> of the
  function: the handler ends the function, a normal end of \<open>m\<close> goes on with \<open>k\<close>.
\<close>

definition try_except_return :: "('s, 'a) act \<Rightarrow> ('s, 'r) act \<Rightarrow> ('s, 'r) act \<Rightarrow> ('s, 'r) act" where
  "try_except_return m h k s =
     (case m s of
        (Inl PositionerError, s') \<Rightarrow> h s'
      | (Inl ValueError, s') \<Rightarrow> (Inl ValueError, s')
      | (Inr _, s') \<Rightarrow> k s')"

definition ifs :: "('s stagecontrol \<Rightarrow> bool) \<Rightarrow> ('s, 'r) act \<Rightarrow> ('s, 'r) act \<Rightarrow> ('s, 'r) act" where
  "ifs b m n s = (if b s then m s else n s)"

definition lift :: "error + 'r \<Rightarrow> ('s, 'r) act" where
  "lift v s = (v, s)"

text \<open>
  The decorator \<open>hwerror_handler\<close>: the wrapped function's result is passed on; a
  \<open>PositionerError\<close> is logged and the wrapper then returns Python's \<open>None\<close>.
\<close>

definition hwerror_handler :: "('s, 'r) act \<Rightarrow> ('s, 'r option) act" where
  "hwerror_handler func s =
     (case func s of
        (Inl PositionerError, s') \<Rightarrow> (Inr None, emit LogError s')
      | (Inl ValueError, s') \<Rightarrow> (Inl ValueError, s')
      | (Inr r, s') \<Rightarrow> (Inr (Some r), s'))"

text \<open>
  The decorator \<open>thread_lock\<close> runs the function while holding the mutex. Events are
  processed one at a time in the model, so the lock changes nothing.
\<close>

definition thread_lock :: "('s, 'r) act \<Rightarrow> ('s, 'r) act" where
  "thread_lock func = func"

definition single_shot :: "int \<Rightarrow> callback \<Rightarrow> ('s, unit) act" where
  "single_shot delay cb = upd (\<lambda>s. s\<lparr>pending := pending s @ [(delay, cb)]\<rparr>)"

definition optimise_delay :: int where
  "optimise_delay = 100"

subsection \<open>Axis commands\<close>

definition start_jog :: "axis \<Rightarrow> bool \<Rightarrow> ('s, int option) act" where
  "start_jog ax direction =
     hwerror_handler
       (seq (hw (SetOffsetVoltage ax 0)) (hw (StartContinuousMotion ax direction)))"

definition step :: "axis \<Rightarrow> int \<Rightarrow> ('s, int option) act" where
  "step ax steps =
     hwerror_handler (seq (hw (SetOffsetVoltage ax 0)) (hw (MoveSteps ax steps)))"

definition stop :: "('s, int option) act" where
  "stop = hwerror_handler (hw StopAll)"

definition stop_axis :: "axis \<Rightarrow> ('s, int option) act" where
  "stop_axis ax = hwerror_handler (seq (hw (StopAxis ax)) (hw (SetOffsetVoltage ax 0)))"

definition set_axis_params :: "axis \<Rightarrow> int \<Rightarrow> int \<Rightarrow> ('s, int option) act" where
  "set_axis_params ax volt freq = hwerror_handler (hw (SetStepParams ax volt freq))"

definition get_axis_params :: "axis \<Rightarrow> ('s, (int \<times> int) option) act" where
  "get_axis_params ax =
     hwerror_handler
       (bnd (hw (GetAxisConfig ax Step_voltage)) (\<lambda>volt.
        bnd (hw (GetAxisConfig ax Frequency)) (\<lambda>freq.
        ret (volt, freq))))"

subsection \<open>numpy.argmax\<close>

text \<open>
  \<open>numpy.argmax\<close> of a sequence: one pass that keeps the best value seen and its index
  and replaces them only by a strictly greater value, so the first maximum wins; the empty
  sequence raises \<open>ValueError\<close>.
\<close>

fun argmax_scan :: "'a::linorder \<Rightarrow> nat \<Rightarrow> nat \<Rightarrow> 'a list \<Rightarrow> nat" where
  "argmax_scan best besti i [] = besti"
| "argmax_scan best besti i (x # xs) =
     (if best < x then argmax_scan x i (Suc i) xs else argmax_scan best besti (Suc i) xs)"

definition np_argmax :: "'a::linorder list \<Rightarrow> error + nat" where
  "np_argmax xs = (case xs of [] \<Rightarrow> Inl ValueError | x # rest \<Rightarrow> Inr (argmax_scan x 0 1 rest))"

subsection \<open>Optimisation sweeps\<close>

definition start_step_optimisation :: "('s, unit) act" where
  "start_step_optimisation =
     seq (upd (\<lambda>s. s\<lparr>current_step := - sweep_length s\<rparr>))
    (seq (upd (\<lambda>s. s\<lparr>sweep_counts := []\<rparr>))
    (seq (hw (SetOffsetVoltage AxisZ 0))
    (try_except_return (\<lambda>s. hw (MoveSteps AxisZ (current_step s)) s)
       (upd (emit LogError))
       (seq (upd (emit StartCount))
            (single_shot (optimise_delay * 4) OptimisationStep)))))"

definition start_volt_optimisation :: "('s, unit) act" where
  "start_volt_optimisation =
     seq (upd (\<lambda>s. s\<lparr>current_v_step := 0\<rparr>))
    (seq (upd (\<lambda>s. s\<lparr>sweep_counts := []\<rparr>))
    (seq (upd (emit LogDebug))
    (seq (\<lambda>s. hw (MoveSteps AxisZ (- (v_sweep_length s div 20 + 1))) s)
    (seq (upd (emit StartCount))
         (single_shot (optimise_delay * 4) VoltOptimisationStep)))))"

definition optimise_z :: "int \<Rightarrow> int \<Rightarrow> ('s, unit) act" where
  "optimise_z steps volts =
     seq (upd (\<lambda>s. s\<lparr>sweep_length := steps\<rparr>))
    (seq (upd (\<lambda>s. s\<lparr>v_sweep_length := volts\<rparr>))
    (seq (upd (\<lambda>s. s\<lparr>abort := False\<rparr>))
         (if steps > 0 then start_step_optimisation
          else if volts > 0 then start_volt_optimisation
          else ret ())))"

definition volt_optimisation_step :: "string \<Rightarrow> 's::linorder \<Rightarrow> ('s, unit) act" where
  "volt_optimisation_step module_state counts =
     thread_lock
      (ifs abort (upd (emit StopCount))
      (if module_state = ''locked'' then
         seq (upd (\<lambda>s. s\<lparr>sweep_counts := sweep_counts s @ [counts]\<rparr>))
        (seq (upd (emit SigCountDataUpdated))
        (ifs (\<lambda>s. current_v_step s < v_sweep_length s)
           (try_except_return (\<lambda>s. hw (SetOffsetVoltage AxisZ (current_v_step s)) s)
              (seq (upd (emit LogError)) (upd (emit StopCount)))
              (seq (upd (\<lambda>s. s\<lparr>current_v_step := current_v_step s + 1\<rparr>))
                   (single_shot optimise_delay VoltOptimisationStep)))
           (bnd (\<lambda>s. lift (np_argmax (sweep_counts s)) s) (\<lambda>max_index.
            seq (upd (emit LogDebug))
           (seq (try_except (hw (SetOffsetVoltage AxisZ (int max_index)))
                            (upd (emit LogError)))
                (upd (emit SigOptimisationDone)))))))
       else ret ()))"

definition optimisation_step :: "string \<Rightarrow> 's::linorder \<Rightarrow> ('s, unit) act" where
  "optimisation_step module_state counts =
     thread_lock
      (ifs abort (upd (emit StopCount))
      (if module_state = ''locked'' then
         seq (upd (\<lambda>s. s\<lparr>sweep_counts := sweep_counts s @ [counts]\<rparr>))
        (seq (upd (emit SigCountDataUpdated))
        (ifs (\<lambda>s. current_step s < sweep_length s)
           (try_except_return (hw (MoveSteps AxisZ 1))
              (seq (upd (emit LogError)) (upd (emit StopCount)))
              (seq (upd (\<lambda>s. s\<lparr>current_step := current_step s + 1\<rparr>))
                   (single_shot optimise_delay OptimisationStep)))
           (bnd (\<lambda>s. lift (np_argmax (sweep_counts s)) s) (\<lambda>max_index.
            bnd (\<lambda>s. ret (2 * sweep_length s - int max_index) s) (\<lambda>steps.
            seq (upd (emit LogDebug))
           (seq (try_except (if steps > 0 then hw (MoveSteps AxisZ (- steps)) else ret 0)
                            (upd (emit LogError)))
                (ifs (\<lambda>s. v_sweep_length s > 0)
                   (single_shot (optimise_delay * 4) StartVoltOptimisation)
                   (upd (emit SigOptimisationDone)))))))))
       else upd (emit LogError)))"

definition abort_optimisation :: "('s, unit) act" where
  "abort_optimisation = thread_lock (upd (\<lambda>s. s\<lparr>abort := True\<rparr>))"

subsection \<open>The event loop\<close>

text \<open>
  What reaches the module from outside during an optimisation: a timer expires, with the
  counter's state and last smoothed count as the callback will read them, or someone calls
  \<open>abort_optimisation\<close>. An expiry runs the oldest pending callback; an exception that
  leaves the callback is recorded and the loop goes on.
\<close>

datatype 's input = TimerExpired string 's | AbortOptimisation

definition run_callback :: "callback \<Rightarrow> string \<Rightarrow> 's::linorder \<Rightarrow> ('s, unit) act" where
  "run_callback cb module_state counts =
     (case cb of
        OptimisationStep \<Rightarrow> optimisation_step module_state counts
      | VoltOptimisationStep \<Rightarrow> volt_optimisation_step module_state counts
      | StartVoltOptimisation \<Rightarrow> start_volt_optimisation)"

definition dispatch :: "'s::linorder input \<Rightarrow> 's stagecontrol \<Rightarrow> 's stagecontrol" where
  "dispatch i s =
     (case i of
        AbortOptimisation \<Rightarrow> snd (abort_optimisation s)
      | TimerExpired module_state counts \<Rightarrow>
          (case pending s of
             [] \<Rightarrow> s
           | (delay, cb) # rest \<Rightarrow>
               (case run_callback cb module_state counts (s\<lparr>pending := rest\<rparr>) of
                  (Inl e, s') \<Rightarrow> emit (Uncaught e) s'
                | (Inr _, s') \<Rightarrow> s')))"

definition run :: "'s::linorder input list \<Rightarrow> 's stagecontrol \<Rightarrow> 's stagecontrol" where
  "run inputs s = fold dispatch inputs s"

subsection \<open>Joystick\<close>

text \<open>
  The sector policy of \<open>xbox_joystick_move\<close> (the values of \<open>required_x\<close> and
  \<open>required_y\<close> after the \<open>if\<close> chain), over the reals.
\<close>

definition in_dead_zone :: "real \<Rightarrow> real \<Rightarrow> bool" where
  "in_dead_zone x y = (sqrt (x\<^sup>2 + y\<^sup>2) < 0.1)"

definition required_motion :: "real \<Rightarrow> real \<Rightarrow> real \<times> real" where
  "required_motion x y =
     (if in_dead_zone x y then (0, 0)
      else if \<bar>y\<bar> > \<bar>2 * x\<bar> then (0, sgn y)
      else if \<bar>x\<bar> > \<bar>2 * y\<bar> then (sgn x, 0)
      else (if x \<noteq> 0 then sgn x else 0, if y \<noteq> 0 then sgn y else 0))"

definition xbox_joystick_move :: "joystick_state \<Rightarrow> ('s, unit) act" where
  "xbox_joystick_move js =
     (let z = y_right js; x = x_left js; y = y_left js;
          required_x = fst (required_motion x y);
          required_y = snd (required_motion x y)
      in
        seq (ifs (\<lambda>s. z = 0 \<and> z_joystick_jog_running s \<noteq> 0)
               (seq (stop_axis AxisZ) (upd (\<lambda>s. s\<lparr>z_joystick_jog_running := 0\<rparr>)))
            (ifs (\<lambda>s. sgn z \<noteq> of_int (sgn (z_joystick_jog_running s)))
               (if z > 0 then
                  seq (start_jog AxisZ False) (upd (\<lambda>s. s\<lparr>z_joystick_jog_running := 1\<rparr>))
                else if z < 0 then
                  seq (start_jog AxisZ True) (upd (\<lambda>s. s\<lparr>z_joystick_jog_running := - 1\<rparr>))
                else ret ())
               (ret ())))
       (seq (ifs (\<lambda>s. required_x = 0 \<and> x_joystick_jog_running s \<noteq> 0)
               (seq (stop_axis AxisX) (upd (\<lambda>s. s\<lparr>x_joystick_jog_running := 0\<rparr>)))
               (ret ()))
       (seq (ifs (\<lambda>s. required_y = 0 \<and> y_joystick_jog_running s \<noteq> 0)
               (seq (stop_axis AxisY) (upd (\<lambda>s. s\<lparr>y_joystick_jog_running := 0\<rparr>)))
               (ret ()))
       (seq (ifs (\<lambda>s. required_y \<noteq> 0 \<and>
                      (of_int (sgn (y_joystick_jog_running s)) \<noteq> sgn required_y
                       \<or> y_joystick_jog_running s = 0))
               (if y > 0 then
                  seq (start_jog AxisY True) (upd (\<lambda>s. s\<lparr>y_joystick_jog_running := 1\<rparr>))
                else if y < 0 then
                  seq (start_jog AxisY False) (upd (\<lambda>s. s\<lparr>y_joystick_jog_running := - 1\<rparr>))
                else ret ())
               (ret ()))
            (ifs (\<lambda>s. required_x \<noteq> 0 \<and>
                      (of_int (sgn (x_joystick_jog_running s)) \<noteq> sgn required_x
                       \<or> x_joystick_jog_running s = 0))
               (if x > 0 then
                  seq (start_jog AxisX True) (upd (\<lambda>s. s\<lparr>x_joystick_jog_running := 1\<rparr>))
                else if x < 0 then
                  seq (start_jog AxisX False) (upd (\<lambda>s. s\<lparr>x_joystick_jog_running := - 1\<rparr>))
                else ret ())
               (ret ()))))))"

text \<open>
  The state \<open>on_activate\<close> leaves, before any call to the hardware, with the given
  script for the positioner. The sweep attributes do not exist in Python before
  \<open>optimise_z\<close> assigns them; here they start at 0 and \<open>optimise_z\<close> and the two
  start functions overwrite them before any expiry reads them.
\<close>

definition on_activate :: "hw_reply list \<Rightarrow> 's stagecontrol" where
  "on_activate script =
     \<lparr> x_joystick_jog_running = 0, y_joystick_jog_running = 0, z_joystick_jog_running = 0,
       abort = False, sweep_length = 0, v_sweep_length = 0, current_step = 0,
       current_v_step = 0, sweep_counts = [], hw_script = script, trace = [], pending = [] \<rparr>"

subsection \<open>Notions used to state the properties\<close>

text \<open>No call to the positioner raises: the script holds no \<open>Raises\<close>.\<close>

definition no_fault :: "'s stagecontrol \<Rightarrow> bool" where
  "no_fault s = (Raises \<notin> set (hw_script s))"

definition reply_value :: "hw_reply list \<Rightarrow> int" where
  "reply_value rs = (case rs of Returns v # _ \<Rightarrow> v | _ \<Rightarrow> 0)"

text \<open>A timer expiry at which the counter is found running, with the given count.\<close>

definition live_tick :: "'s \<Rightarrow> 's input" where
  "live_tick counts = TimerExpired ''locked'' counts"

text \<open>The offset voltages written to one axis, read off a trace in the order of the calls.\<close>

fun offset_writes :: "axis \<Rightarrow> event list \<Rightarrow> int list" where
  "offset_writes ax [] = []"
| "offset_writes ax (Hw (SetOffsetVoltage a v) # es) =
     (if a = ax then v # offset_writes ax es else offset_writes ax es)"
| "offset_writes ax (e # es) = offset_writes ax es"

text \<open>
  Modelled from the spec: the positioner itself is not part of the module. It keeps, per
  axis, the offset voltage written last (``offset voltage: a fine-positioning voltage
  applied to an axis, mutually exclusive with active stepping''). Replaying a trace on
  these registers gives the motion commands that reach an axis whose offset voltage is
  not 0 at that moment.
\<close>

fun motion_with_offset :: "(axis \<Rightarrow> int) \<Rightarrow> event list \<Rightarrow> hw_call list" where
  "motion_with_offset ov [] = []"
| "motion_with_offset ov (Hw (SetOffsetVoltage a v) # es) = motion_with_offset (ov(a := v)) es"
| "motion_with_offset ov (Hw (MoveSteps a n) # es) =
     (if ov a \<noteq> 0 then MoveSteps a n # motion_with_offset ov es
      else motion_with_offset ov es)"
| "motion_with_offset ov (Hw (StartContinuousMotion a d) # es) =
     (if ov a \<noteq> 0 then StartContinuousMotion a d # motion_with_offset ov es
      else motion_with_offset ov es)"
| "motion_with_offset ov (e # es) = motion_with_offset ov es"

text \<open>
  Two voltage sweeps in a row, both \<open>optimise_z(0, 2)\<close>, on a positioner that never
  raises and starts with all offset voltages at 0; the first sweep reads the counts 1, 5, 2.
\<close>

definition after_first_volt_sweep :: "int stagecontrol" where
  "after_first_volt_sweep =
     run (map live_tick [1, 5, 2]) (snd (optimise_z 0 2 (on_activate [])))"

definition second_volt_sweep_started :: "int stagecontrol" where
  "second_volt_sweep_started = snd (optimise_z 0 2 after_first_volt_sweep)"

text \<open>
  A step sweep \<open>optimise_z(1, 1)\<close> with a chained voltage sweep, on a positioner that
  never raises: the three expiries of the step sweep, then \<open>abort_optimisation\<close> while
  the timer for \<open>_start_volt_optimisation\<close> is pending.
\<close>

definition step_phase_done :: "int stagecontrol" where
  "step_phase_done = run (map live_tick [1, 5, 2]) (snd (optimise_z 1 1 (on_activate [])))"

definition aborted_between_phases :: "int stagecontrol" where
  "aborted_between_phases = dispatch AbortOptimisation step_phase_done"

text \<open>A voltage sweep and a step sweep, each after its first expiry.\<close>

definition volt_sweep_running :: "int stagecontrol" where
  "volt_sweep_running = run [live_tick 1] (snd (optimise_z 0 2 (on_activate [])))"

definition step_sweep_running :: "int stagecontrol" where
  "step_sweep_running = run [live_tick 1] (snd (optimise_z 2 0 (on_activate [])))"

text \<open>
  The three jog-state attributes, by axis, and the sign the joystick code records with each
  start call: on z a positive input starts with direction \<open>False\<close>, on x and y with
  \<open>True\<close>.
\<close>

definition jog_running :: "axis \<Rightarrow> 's stagecontrol \<Rightarrow> int" where
  "jog_running ax s =
     (case ax of AxisX \<Rightarrow> x_joystick_jog_running s
               | AxisY \<Rightarrow> y_joystick_jog_running s
               | AxisZ \<Rightarrow> z_joystick_jog_running s)"

definition set_jog :: "axis \<Rightarrow> int \<Rightarrow> 's stagecontrol \<Rightarrow> 's stagecontrol" where
  "set_jog ax v s =
     (case ax of AxisX \<Rightarrow> s\<lparr>x_joystick_jog_running := v\<rparr>
               | AxisY \<Rightarrow> s\<lparr>y_joystick_jog_running := v\<rparr>
               | AxisZ \<Rightarrow> s\<lparr>z_joystick_jog_running := v\<rparr>)"

definition jog_sign :: "axis \<Rightarrow> bool \<Rightarrow> int" where
  "jog_sign ax direction =
     (if ax = AxisZ then (if direction then - 1 else 1) else (if direction then 1 else - 1))"

text \<open>The direction a joystick sample asks for on an axis: 0, 1 or -1.\<close>

definition desired :: "axis \<Rightarrow> joystick_state \<Rightarrow> real" where
  "desired ax js =
     (case ax of AxisX \<Rightarrow> fst (required_motion (x_left js) (y_left js))
               | AxisY \<Rightarrow> snd (required_motion (x_left js) (y_left js))
               | AxisZ \<Rightarrow> sgn (y_right js))"

text \<open>
  The direction last sent to the positioner for an axis, read off a trace: a start call
  gives its sign, a stop of the axis or of all axes gives 0.
\<close>

fun commanded :: "axis \<Rightarrow> int \<Rightarrow> event list \<Rightarrow> int" where
  "commanded ax d [] = d"
| "commanded ax d (Hw (StartContinuousMotion a direction) # es) =
     commanded ax (if a = ax then jog_sign a direction else d) es"
| "commanded ax d (Hw (StopAxis a) # es) = commanded ax (if a = ax then 0 else d) es"
| "commanded ax d (Hw StopAll # es) = commanded ax 0 es"
| "commanded ax d (e # es) = commanded ax d es"

text \<open>A sequence of joystick samples, handled one after the other.\<close>

definition joystick_run :: "joystick_state list \<Rightarrow> 's stagecontrol \<Rightarrow> 's stagecontrol" where
  "joystick_run samples s = fold (\<lambda>js s. snd (xbox_joystick_move js s)) samples s"

text \<open>
  What a wrapped pair of positioner calls (\<open>start_jog\<close>, \<open>stop_axis\<close>) adds to the
  trace and leaves of the script, by the replies it gets.
\<close>

definition pair_events :: "hw_call \<Rightarrow> hw_call \<Rightarrow> hw_reply list \<Rightarrow> event list" where
  "pair_events c1 c2 rs =
     (case rs of
        Raises # _ \<Rightarrow> [Hw c1, LogError]
      | Returns _ # Raises # _ \<Rightarrow> [Hw c1, Hw c2, LogError]
      | _ \<Rightarrow> [Hw c1, Hw c2])"

definition pair_script :: "hw_reply list \<Rightarrow> hw_reply list" where
  "pair_script rs = (case rs of Raises # rs' \<Rightarrow> rs' | _ \<Rightarrow> drop 2 rs)"

definition fire :: "hw_call \<Rightarrow> hw_call \<Rightarrow> axis \<Rightarrow> int \<Rightarrow> 's stagecontrol \<Rightarrow> 's stagecontrol" where
  "fire c1 c2 ax v s =
     set_jog ax v (s\<lparr>hw_script := pair_script (hw_script s),
                     trace := trace s @ pair_events c1 c2 (hw_script s)\<rparr>)"

text \<open>The blocks of \<open>xbox_joystick_move\<close> as state changes.\<close>

definition z_block :: "real \<Rightarrow> 's stagecontrol \<Rightarrow> 's stagecontrol" where
  "z_block z s =
     (if z = 0 \<and> jog_running AxisZ s \<noteq> 0
      then fire (StopAxis AxisZ) (SetOffsetVoltage AxisZ 0) AxisZ 0 s
      else if sgn z \<noteq> of_int (sgn (jog_running AxisZ s))
      then (if z > 0
            then fire (SetOffsetVoltage AxisZ 0) (StartContinuousMotion AxisZ False) AxisZ 1 s
            else if z < 0
            then fire (SetOffsetVoltage AxisZ 0) (StartContinuousMotion AxisZ True) AxisZ (- 1) s
            else s)
      else s)"

definition stop_block :: "axis \<Rightarrow> real \<Rightarrow> 's stagecontrol \<Rightarrow> 's stagecontrol" where
  "stop_block ax required s =
     (if required = 0 \<and> jog_running ax s \<noteq> 0
      then fire (StopAxis ax) (SetOffsetVoltage ax 0) ax 0 s
      else s)"

definition start_block :: "axis \<Rightarrow> real \<Rightarrow> real \<Rightarrow> 's stagecontrol \<Rightarrow> 's stagecontrol" where
  "start_block ax required v s =
     (if required \<noteq> 0 \<and>
         (of_int (sgn (jog_running ax s)) \<noteq> sgn required \<or> jog_running ax s = 0)
      then (if v > 0
            then fire (SetOffsetVoltage ax 0) (StartContinuousMotion ax True) ax 1 s
            else if v < 0
            then fire (SetOffsetVoltage ax 0) (StartContinuousMotion ax False) ax (- 1) s
            else s)
      else s)"

section \<open>Properties\<close>

subsection \<open>Basic facts\<close>

lemmas act_defs = emit_def hw_def ret_def bnd_def seq_def upd_def try_except_def
  try_except_return_def ifs_def lift_def hwerror_handler_def thread_lock_def single_shot_def
  optimise_delay_def

lemma in_dead_zone_code [code]: "in_dead_zone x y = (x\<^sup>2 + y\<^sup>2 < 0.01)"
proof -
  have "sqrt (x\<^sup>2 + y\<^sup>2) < 0.1 \<longleftrightarrow> sqrt (x\<^sup>2 + y\<^sup>2) < sqrt (0.01)"
    by (simp add: real_sqrt_divide)
  then show ?thesis
    unfolding in_dead_zone_def by (simp only: real_sqrt_less_iff)
qed

text \<open>
  The scan of \<open>numpy.argmax\<close> keeps this invariant: the best index so far points at the
  first maximum of the part already read.
\<close>

lemma argmax_scan_spec:
  assumes "besti < length pre" and "pre ! besti = best"
    and "\<forall>j<length pre. pre ! j \<le> best" and "\<forall>j<besti. pre ! j < best"
  shows "argmax_scan best besti (length pre) xs < length (pre @ xs) \<and>
         (\<forall>j<length (pre @ xs). (pre @ xs) ! j \<le> (pre @ xs) ! argmax_scan best besti (length pre) xs) \<and>
         (\<forall>j<argmax_scan best besti (length pre) xs.
             (pre @ xs) ! j < (pre @ xs) ! argmax_scan best besti (length pre) xs)"
  using assms
proof (induction xs arbitrary: pre best besti)
  case Nil
  then show ?case by simp
next
  case (Cons x xs)
  show ?case
  proof (cases "best < x")
    case True
    have a: "length pre < length (pre @ [x])" by simp
    have b: "(pre @ [x]) ! length pre = x" by simp
    have c: "\<forall>j<length (pre @ [x]). (pre @ [x]) ! j \<le> x"
      using Cons.prems(3) True by (auto simp: nth_append less_Suc_eq)
    have d: "\<forall>j<length pre. (pre @ [x]) ! j < x"
      using Cons.prems(3) True by (auto simp: nth_append)
    from Cons.IH [OF a b c d] True show ?thesis by simp
  next
    case False
    have a: "besti < length (pre @ [x])" using Cons.prems(1) by simp
    have b: "(pre @ [x]) ! besti = best" using Cons.prems(1,2) by (simp add: nth_append)
    have c: "\<forall>j<length (pre @ [x]). (pre @ [x]) ! j \<le> best"
      using Cons.prems(3) False by (auto simp: nth_append less_Suc_eq)
    have d: "\<forall>j<besti. (pre @ [x]) ! j < best"
      using Cons.prems(1,4) by (auto simp: nth_append)
    from Cons.IH [OF a b c d] False show ?thesis by simp
  qed
qed

lemma np_argmax_first_max:
  assumes "xs \<noteq> []"
  shows "\<exists>m. np_argmax xs = Inr m \<and> m < length xs \<and> (\<forall>j<length xs. xs ! j \<le> xs ! m) \<and>
             (\<forall>j<m. xs ! j < xs ! m)"
proof -
  from assms obtain x rest where xs: "xs = x # rest" by (cases xs) auto
  have "argmax_scan x 0 (length [x]) rest < length ([x] @ rest) \<and>
        (\<forall>j<length ([x] @ rest). ([x] @ rest) ! j \<le> ([x] @ rest) ! argmax_scan x 0 (length [x]) rest) \<and>
        (\<forall>j<argmax_scan x 0 (length [x]) rest.
            ([x] @ rest) ! j < ([x] @ rest) ! argmax_scan x 0 (length [x]) rest)"
    by (rule argmax_scan_spec) auto
  then show ?thesis by (simp add: xs np_argmax_def)
qed

subsection \<open>Single timer expiries without faults\<close>

lemma hw_ok:
  "no_fault s \<Longrightarrow>
   hw c s = (Inr (reply_value (hw_script s)),
             s\<lparr>trace := trace s @ [Hw c], hw_script := tl (hw_script s)\<rparr>)"
  by (auto simp: hw_def no_fault_def reply_value_def emit_def split: list.splits hw_reply.splits)

lemma no_fault_tl: "Raises \<notin> set rs \<Longrightarrow> Raises \<notin> set (tl rs)"
  by (cases rs) auto

lemmas tick_defs = dispatch_def live_tick_def run_callback_def thread_lock_def ifs_def seq_def
  bnd_def upd_def ret_def lift_def try_except_def try_except_return_def single_shot_def
  optimise_delay_def emit_def

lemma step_tick:
  assumes "\<not> abort s" and "no_fault s" and "pending s = (d, OptimisationStep) # rest"
    and "current_step s < sweep_length s"
  shows "dispatch (live_tick c) s =
         s\<lparr>pending := rest @ [(100, OptimisationStep)],
           sweep_counts := sweep_counts s @ [c],
           trace := trace s @ [SigCountDataUpdated, Hw (MoveSteps AxisZ 1)],
           hw_script := tl (hw_script s),
           current_step := current_step s + 1\<rparr>"
  using assms
  by (simp add: optimisation_step_def tick_defs hw_ok no_fault_def)

lemma step_final_tick:
  assumes "\<not> abort s" and "no_fault s" and "pending s = (d, OptimisationStep) # rest"
    and "\<not> current_step s < sweep_length s"
    and "np_argmax (sweep_counts s @ [c]) = Inr m"
  shows "dispatch (live_tick c) s =
         s\<lparr>pending := rest @ (if v_sweep_length s > 0 then [(400, StartVoltOptimisation)] else []),
           sweep_counts := sweep_counts s @ [c],
           trace := trace s @ [SigCountDataUpdated, LogDebug]
              @ (if 2 * sweep_length s - int m > 0
                 then [Hw (MoveSteps AxisZ (- (2 * sweep_length s - int m)))] else [])
              @ (if v_sweep_length s > 0 then [] else [SigOptimisationDone]),
           hw_script := (if 2 * sweep_length s - int m > 0 then tl (hw_script s)
                         else hw_script s)\<rparr>"
  using assms
  by (simp add: optimisation_step_def tick_defs hw_ok no_fault_def)

lemma volt_tick:
  assumes "\<not> abort s" and "no_fault s" and "pending s = (d, VoltOptimisationStep) # rest"
    and "current_v_step s < v_sweep_length s"
  shows "dispatch (live_tick c) s =
         s\<lparr>pending := rest @ [(100, VoltOptimisationStep)],
           sweep_counts := sweep_counts s @ [c],
           trace := trace s @ [SigCountDataUpdated, Hw (SetOffsetVoltage AxisZ (current_v_step s))],
           hw_script := tl (hw_script s),
           current_v_step := current_v_step s + 1\<rparr>"
  using assms
  by (simp add: volt_optimisation_step_def tick_defs hw_ok no_fault_def)

lemma volt_final_tick:
  assumes "\<not> abort s" and "no_fault s" and "pending s = (d, VoltOptimisationStep) # rest"
    and "\<not> current_v_step s < v_sweep_length s"
    and "np_argmax (sweep_counts s @ [c]) = Inr m"
  shows "dispatch (live_tick c) s =
         s\<lparr>pending := rest,
           sweep_counts := sweep_counts s @ [c],
           trace := trace s @ [SigCountDataUpdated, LogDebug, Hw (SetOffsetVoltage AxisZ (int m)),
                               SigOptimisationDone],
           hw_script := tl (hw_script s)\<rparr>"
  using assms
  by (simp add: volt_optimisation_step_def tick_defs hw_ok no_fault_def)

lemma start_volt_tick:
  assumes "no_fault s" and "pending s = (d, StartVoltOptimisation) # rest"
  shows "dispatch (TimerExpired ms c) s =
         s\<lparr>pending := rest @ [(400, VoltOptimisationStep)],
           sweep_counts := [],
           trace := trace s @ [LogDebug, Hw (MoveSteps AxisZ (- (v_sweep_length s div 20 + 1))),
                               StartCount],
           hw_script := tl (hw_script s),
           current_v_step := 0\<rparr>"
  using assms
  by (simp add: start_volt_optimisation_def tick_defs hw_ok no_fault_def)

lemma optimise_z_step:
  assumes "no_fault s" and "0 < steps"
  shows "optimise_z steps volts s =
         (Inr (), s\<lparr>sweep_length := steps, v_sweep_length := volts, abort := False,
           current_step := - steps, sweep_counts := [],
           trace := trace s @ [Hw (SetOffsetVoltage AxisZ 0), Hw (MoveSteps AxisZ (- steps)),
                               StartCount],
           hw_script := tl (tl (hw_script s)),
           pending := pending s @ [(400, OptimisationStep)]\<rparr>)"
  using assms
  by (simp add: optimise_z_def start_step_optimisation_def tick_defs hw_ok no_fault_def no_fault_tl)

lemma optimise_z_volt:
  assumes "no_fault s" and "\<not> 0 < steps" and "0 < volts"
  shows "optimise_z steps volts s =
         (Inr (), s\<lparr>sweep_length := steps, v_sweep_length := volts, abort := False,
           current_v_step := 0, sweep_counts := [],
           trace := trace s @ [LogDebug, Hw (MoveSteps AxisZ (- (volts div 20 + 1))),
                               StartCount],
           hw_script := tl (hw_script s),
           pending := pending s @ [(400, VoltOptimisationStep)]\<rparr>)"
  using assms
  by (simp add: optimise_z_def start_volt_optimisation_def tick_defs hw_ok no_fault_def)

lemma run_Nil: "run [] s = s"
  by (simp add: run_def)

lemma run_Cons: "run (i # inputs) s = run inputs (dispatch i s)"
  by (simp add: run_def)

lemma run_append: "run (xs @ ys) s = run ys (run xs s)"
  by (simp add: run_def)

lemma step_loop:
  assumes "\<not> abort s" and "no_fault s" and "pending s = [(d, OptimisationStep)]"
    and "current_step s + int (length cs) \<le> sweep_length s"
  shows "run (map live_tick cs) s =
         s\<lparr>pending := [(if cs = [] then d else 100, OptimisationStep)],
           sweep_counts := sweep_counts s @ cs,
           trace := trace s @ concat (map (\<lambda>c. [SigCountDataUpdated, Hw (MoveSteps AxisZ 1)]) cs),
           hw_script := drop (length cs) (hw_script s),
           current_step := current_step s + int (length cs)\<rparr>"
  using assms
proof (induction cs arbitrary: s d)
  case Nil
  then show ?case by (simp add: run_Nil)
next
  case (Cons c cs)
  let ?s1 = "dispatch (live_tick c) s"
  have lt: "current_step s < sweep_length s" using Cons.prems(4) by simp
  have s1: "?s1 = s\<lparr>pending := [] @ [(100, OptimisationStep)],
           sweep_counts := sweep_counts s @ [c],
           trace := trace s @ [SigCountDataUpdated, Hw (MoveSteps AxisZ 1)],
           hw_script := tl (hw_script s),
           current_step := current_step s + 1\<rparr>"
    by (rule step_tick [OF Cons.prems(1) Cons.prems(2) Cons.prems(3) lt])
  have a: "\<not> abort ?s1" using Cons.prems(1) by (simp add: s1)
  have b: "no_fault ?s1" using Cons.prems(2) by (simp add: s1 no_fault_def no_fault_tl)
  have c: "pending ?s1 = [(100, OptimisationStep)]" by (simp add: s1)
  have d: "current_step ?s1 + int (length cs) \<le> sweep_length ?s1"
    using Cons.prems(4) by (simp add: s1)
  show ?case
    by (simp add: run_Cons Cons.IH [OF a b c d]) (simp add: s1 drop_Suc)
qed

lemma volt_loop:
  assumes "\<not> abort s" and "no_fault s" and "pending s = [(d, VoltOptimisationStep)]"
    and "current_v_step s + int (length cs) \<le> v_sweep_length s"
  shows "run (map live_tick cs) s =
         s\<lparr>pending := [(if cs = [] then d else 100, VoltOptimisationStep)],
           sweep_counts := sweep_counts s @ cs,
           trace := trace s @ concat (map (\<lambda>i. [SigCountDataUpdated,
                       Hw (SetOffsetVoltage AxisZ (current_v_step s + int i))]) [0..<length cs]),
           hw_script := drop (length cs) (hw_script s),
           current_v_step := current_v_step s + int (length cs)\<rparr>"
  using assms
proof (induction cs arbitrary: s d)
  case Nil
  then show ?case by (simp add: run_Nil)
next
  case (Cons c cs)
  let ?s1 = "dispatch (live_tick c) s"
  have lt: "current_v_step s < v_sweep_length s" using Cons.prems(4) by simp
  have s1: "?s1 = s\<lparr>pending := [] @ [(100, VoltOptimisationStep)],
           sweep_counts := sweep_counts s @ [c],
           trace := trace s @ [SigCountDataUpdated, Hw (SetOffsetVoltage AxisZ (current_v_step s))],
           hw_script := tl (hw_script s),
           current_v_step := current_v_step s + 1\<rparr>"
    by (rule volt_tick [OF Cons.prems(1) Cons.prems(2) Cons.prems(3) lt])
  have a: "\<not> abort ?s1" using Cons.prems(1) by (simp add: s1)
  have b: "no_fault ?s1" using Cons.prems(2) by (simp add: s1 no_fault_def no_fault_tl)
  have c: "pending ?s1 = [(100, VoltOptimisationStep)]" by (simp add: s1)
  have e: "current_v_step ?s1 + int (length cs) \<le> v_sweep_length ?s1"
    using Cons.prems(4) by (simp add: s1)
  have u: "[0..<length (c # cs)] = 0 # map Suc [0..<length cs]"
    by (simp add: upt_conv_Cons map_Suc_upt del: upt_Suc)
  have v: "concat (map (\<lambda>i. [SigCountDataUpdated,
              Hw (SetOffsetVoltage AxisZ (current_v_step s + int i))]) [0..<length (c # cs)]) =
           [SigCountDataUpdated, Hw (SetOffsetVoltage AxisZ (current_v_step s))] @
           concat (map (\<lambda>i. [SigCountDataUpdated,
              Hw (SetOffsetVoltage AxisZ (current_v_step s + 1 + int i))]) [0..<length cs])"
    unfolding u by (simp add: comp_def add.assoc)
  have "run (map live_tick (c # cs)) s = run (map live_tick cs) ?s1"
    by (simp add: run_Cons)
  also have "\<dots> = ?s1\<lparr>pending := [(if cs = [] then 100 else 100, VoltOptimisationStep)],
           sweep_counts := sweep_counts ?s1 @ cs,
           trace := trace ?s1 @ concat (map (\<lambda>i. [SigCountDataUpdated,
                       Hw (SetOffsetVoltage AxisZ (current_v_step ?s1 + int i))]) [0..<length cs]),
           hw_script := drop (length cs) (hw_script ?s1),
           current_v_step := current_v_step ?s1 + int (length cs)\<rparr>"
    by (rule Cons.IH [OF a b c e])
  also have "\<dots> = s\<lparr>pending := [(if c # cs = [] then d else 100, VoltOptimisationStep)],
           sweep_counts := sweep_counts s @ c # cs,
           trace := trace s @ concat (map (\<lambda>i. [SigCountDataUpdated,
                       Hw (SetOffsetVoltage AxisZ (current_v_step s + int i))]) [0..<length (c # cs)]),
           hw_script := drop (length (c # cs)) (hw_script s),
           current_v_step := current_v_step s + int (length (c # cs))\<rparr>"
    unfolding v by (simp add: s1 drop_Suc)
  finally show ?case .
qed

subsection \<open>Whole step sweeps\<close>

lemma no_fault_drop: "Raises \<notin> set rs \<Longrightarrow> Raises \<notin> set (drop k rs)"
  by (meson in_set_dropD)

lemma step_sweep_prefix:
  assumes "0 < n" and "no_fault s" and "pending s = []" and "int (length cs) \<le> 2 * n"
  shows "run (map live_tick cs) (snd (optimise_z n v s)) =
         s\<lparr>sweep_length := n, v_sweep_length := v, abort := False,
           pending := [(if cs = [] then 400 else 100, OptimisationStep)],
           sweep_counts := cs,
           trace := trace s @ [Hw (SetOffsetVoltage AxisZ 0), Hw (MoveSteps AxisZ (- n)), StartCount]
                    @ concat (map (\<lambda>c. [SigCountDataUpdated, Hw (MoveSteps AxisZ 1)]) cs),
           hw_script := drop (length cs) (tl (tl (hw_script s))),
           current_step := - n + int (length cs)\<rparr>"
proof -
  let ?s0 = "snd (optimise_z n v s)"
  have s0: "?s0 = s\<lparr>sweep_length := n, v_sweep_length := v, abort := False,
           current_step := - n, sweep_counts := [],
           trace := trace s @ [Hw (SetOffsetVoltage AxisZ 0), Hw (MoveSteps AxisZ (- n)),
                               StartCount],
           hw_script := tl (tl (hw_script s)),
           pending := pending s @ [(400, OptimisationStep)]\<rparr>"
    by (simp add: optimise_z_step [OF assms(2) assms(1)])
  have a: "\<not> abort ?s0" by (simp add: s0)
  have b: "no_fault ?s0" using assms(2) by (simp add: s0 no_fault_def no_fault_tl)
  have c: "pending ?s0 = [(400, OptimisationStep)]" using assms(3) by (simp add: s0)
  have d: "current_step ?s0 + int (length cs) \<le> sweep_length ?s0"
    using assms(4) by (simp add: s0)
  show ?thesis
    by (simp add: step_loop [OF a b c d]) (simp add: s0)
qed

lemma step_sweep_complete:
  assumes "0 < n" and "no_fault s" and "pending s = []" and "int (length cs) = 2 * n"
    and "np_argmax (cs @ [c]) = Inr m"
  shows "run (map live_tick (cs @ [c])) (snd (optimise_z n v s)) =
         s\<lparr>sweep_length := n, v_sweep_length := v, abort := False,
           pending := (if 0 < v then [(400, StartVoltOptimisation)] else []),
           sweep_counts := cs @ [c],
           trace := trace s @ [Hw (SetOffsetVoltage AxisZ 0), Hw (MoveSteps AxisZ (- n)), StartCount]
                    @ concat (map (\<lambda>c. [SigCountDataUpdated, Hw (MoveSteps AxisZ 1)]) cs)
                    @ [SigCountDataUpdated, LogDebug]
                    @ (if 0 < 2 * n - int m then [Hw (MoveSteps AxisZ (- (2 * n - int m)))] else [])
                    @ (if 0 < v then [] else [SigOptimisationDone]),
           hw_script := (if 0 < 2 * n - int m then tl (drop (length cs) (tl (tl (hw_script s))))
                         else drop (length cs) (tl (tl (hw_script s)))),
           current_step := n\<rparr>"
proof -
  let ?s1 = "run (map live_tick cs) (snd (optimise_z n v s))"
  have le: "int (length cs) \<le> 2 * n" using assms(4) by simp
  note s1 = step_sweep_prefix [OF assms(1) assms(2) assms(3) le, of v]
  have a: "\<not> abort ?s1" by (simp add: s1)
  have b: "no_fault ?s1"
    using assms(2) by (simp add: s1 no_fault_def no_fault_tl no_fault_drop)
  have c: "pending ?s1 = (if cs = [] then 400 else 100, OptimisationStep) # []" by (simp add: s1)
  have d: "\<not> current_step ?s1 < sweep_length ?s1" using assms(4) by (simp add: s1)
  have e: "np_argmax (sweep_counts ?s1 @ [c]) = Inr m" using assms(5) by (simp add: s1)
  have "run (map live_tick (cs @ [c])) (snd (optimise_z n v s)) = dispatch (live_tick c) ?s1"
    by (simp add: run_append run_Cons run_Nil)
  also note step_final_tick [OF a b c d e]
  finally show ?thesis using assms(4) by (simp add: s1)
qed

subsection \<open>Whole voltage sweeps\<close>

lemma offset_writes_append:
  "offset_writes ax (es @ fs) = offset_writes ax es @ offset_writes ax fs"
  by (induction ax es rule: offset_writes.induct) auto

lemma offset_writes_ticks:
  "offset_writes AxisZ (concat (map (\<lambda>i. [SigCountDataUpdated,
       Hw (SetOffsetVoltage AxisZ (b + int i))]) [0..<n])) = map (\<lambda>i. b + int i) [0..<n]"
  by (induction n) (auto simp: offset_writes_append)

lemma start_volt_optimisation_ok:
  assumes "no_fault s"
  shows "start_volt_optimisation s =
         (Inr (), s\<lparr>pending := pending s @ [(400, VoltOptimisationStep)],
           sweep_counts := [],
           trace := trace s @ [LogDebug, Hw (MoveSteps AxisZ (- (v_sweep_length s div 20 + 1))),
                               StartCount],
           hw_script := tl (hw_script s),
           current_v_step := 0\<rparr>)"
  using assms
  by (simp add: start_volt_optimisation_def tick_defs hw_ok no_fault_def)

lemma volt_sweep_prefix:
  assumes "\<not> abort s" and "no_fault s" and "pending s = []"
    and "int (length cs) \<le> v_sweep_length s"
  shows "run (map live_tick cs) (snd (start_volt_optimisation s)) =
         s\<lparr>pending := [(if cs = [] then 400 else 100, VoltOptimisationStep)],
           sweep_counts := cs,
           trace := trace s @ [LogDebug, Hw (MoveSteps AxisZ (- (v_sweep_length s div 20 + 1))),
                               StartCount]
                    @ concat (map (\<lambda>i. [SigCountDataUpdated,
                         Hw (SetOffsetVoltage AxisZ (0 + int i))]) [0..<length cs]),
           hw_script := drop (length cs) (tl (hw_script s)),
           current_v_step := int (length cs)\<rparr>"
proof -
  let ?s0 = "snd (start_volt_optimisation s)"
  note s0 = start_volt_optimisation_ok [OF assms(2)]
  have a: "\<not> abort ?s0" using assms(1) by (simp add: s0)
  have b: "no_fault ?s0" using assms(2) by (simp add: s0 no_fault_def no_fault_tl)
  have c: "pending ?s0 = [(400, VoltOptimisationStep)]" using assms(3) by (simp add: s0)
  have d: "current_v_step ?s0 + int (length cs) \<le> v_sweep_length ?s0"
    using assms(4) by (simp add: s0)
  show ?thesis
    by (subst volt_loop [OF a b c d]) (simp add: s0)
qed

lemma volt_sweep_complete:
  assumes "\<not> abort s" and "no_fault s" and "pending s = []"
    and "int (length cs) = v_sweep_length s"
    and "np_argmax (cs @ [c]) = Inr m"
  shows "run (map live_tick (cs @ [c])) (snd (start_volt_optimisation s)) =
         s\<lparr>pending := [],
           sweep_counts := cs @ [c],
           trace := trace s @ [LogDebug, Hw (MoveSteps AxisZ (- (v_sweep_length s div 20 + 1))),
                               StartCount]
                    @ concat (map (\<lambda>i. [SigCountDataUpdated,
                         Hw (SetOffsetVoltage AxisZ (0 + int i))]) [0..<length cs])
                    @ [SigCountDataUpdated, LogDebug, Hw (SetOffsetVoltage AxisZ (int m)),
                       SigOptimisationDone],
           hw_script := tl (drop (length cs) (tl (hw_script s))),
           current_v_step := int (length cs)\<rparr>"
proof -
  let ?s1 = "run (map live_tick cs) (snd (start_volt_optimisation s))"
  have le: "int (length cs) \<le> v_sweep_length s" using assms(4) by simp
  note s1 = volt_sweep_prefix [OF assms(1) assms(2) assms(3) le]
  have a: "\<not> abort ?s1" using assms(1) by (simp add: s1)
  have b: "no_fault ?s1"
    using assms(2) by (simp add: s1 no_fault_def no_fault_tl no_fault_drop)
  have c: "pending ?s1 = (if cs = [] then 400 else 100, VoltOptimisationStep) # []"
    by (simp add: s1)
  have d: "\<not> current_v_step ?s1 < v_sweep_length ?s1" using assms(4) by (simp add: s1)
  have e: "np_argmax (sweep_counts ?s1 @ [c]) = Inr m" using assms(5) by (simp add: s1)
  have "run (map live_tick (cs @ [c])) (snd (start_volt_optimisation s)) =
        dispatch (live_tick c) ?s1"
    by (simp add: run_append run_Cons run_Nil)
  also note volt_final_tick [OF a b c d e]
  finally show ?thesis by (simp add: s1)
qed

subsection \<open>Concrete runs\<close>

lemmas sweep_defs = start_step_optimisation_def start_volt_optimisation_def optimise_z_def
  volt_optimisation_step_def optimisation_step_def abort_optimisation_def run_callback_def
  dispatch_def run_def np_argmax_def on_activate_def live_tick_def

lemma after_first_volt_sweep_eq:
  "after_first_volt_sweep =
     \<lparr> x_joystick_jog_running = 0, y_joystick_jog_running = 0, z_joystick_jog_running = 0,
       abort = False, sweep_length = 0, v_sweep_length = 2, current_step = 0,
       current_v_step = 2, sweep_counts = [1, 5, 2], hw_script = [],
       trace = [LogDebug, Hw (MoveSteps AxisZ (- 1)), StartCount,
                SigCountDataUpdated, Hw (SetOffsetVoltage AxisZ 0),
                SigCountDataUpdated, Hw (SetOffsetVoltage AxisZ 1),
                SigCountDataUpdated, LogDebug, Hw (SetOffsetVoltage AxisZ 1),
                SigOptimisationDone],
       pending = [] \<rparr>"
  by (simp add: after_first_volt_sweep_def sweep_defs act_defs)

lemma step_phase_done_eq:
  "step_phase_done =
     \<lparr> x_joystick_jog_running = 0, y_joystick_jog_running = 0, z_joystick_jog_running = 0,
       abort = False, sweep_length = 1, v_sweep_length = 1, current_step = 1,
       current_v_step = 0, sweep_counts = [1, 5, 2], hw_script = [],
       trace = [Hw (SetOffsetVoltage AxisZ 0), Hw (MoveSteps AxisZ (- 1)), StartCount,
                SigCountDataUpdated, Hw (MoveSteps AxisZ 1),
                SigCountDataUpdated, Hw (MoveSteps AxisZ 1),
                SigCountDataUpdated, LogDebug, Hw (MoveSteps AxisZ (- 1))],
       pending = [(400, StartVoltOptimisation)] \<rparr>"
  by (simp add: step_phase_done_def sweep_defs act_defs)

text \<open>An expiry that finds the abort flag set stops the counter and does nothing else.\<close>

lemma abort_tick:
  assumes "abort s" and "pending s = (d, cb) # rest" and "cb \<noteq> StartVoltOptimisation"
  shows "dispatch (TimerExpired module_state c) s =
         s\<lparr>pending := rest, trace := trace s @ [StopCount]\<rparr>"
  using assms
  by (cases cb) (simp_all add: optimisation_step_def volt_optimisation_step_def tick_defs)

subsection \<open>The joystick handler, block by block\<close>

lemma pair_call:
  "hwerror_handler (seq (hw c1) (hw c2)) s =
     (Inr (case hw_script s of Raises # _ \<Rightarrow> None
           | Returns _ # Raises # _ \<Rightarrow> None
           | Returns _ # Returns v # _ \<Rightarrow> Some v
           | _ \<Rightarrow> Some 0),
      s\<lparr>hw_script := pair_script (hw_script s),
        trace := trace s @ pair_events c1 c2 (hw_script s)\<rparr>)"
  by (auto simp: act_defs pair_script_def pair_events_def split: list.splits hw_reply.splits)

lemma seq_pair_upd:
  "seq (hwerror_handler (seq (hw c1) (hw c2))) (upd (set_jog ax v)) s = (Inr (), fire c1 c2 ax v s)"
  by (simp add: seq_def [of "hwerror_handler _"] bnd_def pair_call upd_def fire_def)

lemma start_jog_set:
  "seq (start_jog ax d) (upd (set_jog ax v)) s =
     (Inr (), fire (SetOffsetVoltage ax 0) (StartContinuousMotion ax d) ax v s)"
  by (simp add: start_jog_def seq_pair_upd)

lemma stop_axis_set:
  "seq (stop_axis ax) (upd (set_jog ax v)) s =
     (Inr (), fire (StopAxis ax) (SetOffsetVoltage ax 0) ax v s)"
  by (simp add: stop_axis_def seq_pair_upd)

lemma z_block_eq:
  "ifs (\<lambda>s. z = 0 \<and> jog_running AxisZ s \<noteq> 0)
       (seq (stop_axis AxisZ) (upd (set_jog AxisZ 0)))
       (ifs (\<lambda>s. sgn z \<noteq> of_int (sgn (jog_running AxisZ s)))
          (if z > 0 then seq (start_jog AxisZ False) (upd (set_jog AxisZ 1))
           else if z < 0 then seq (start_jog AxisZ True) (upd (set_jog AxisZ (- 1)))
           else ret ())
          (ret ())) s = (Inr (), z_block z s)"
  by (simp add: ifs_def ret_def z_block_def start_jog_set stop_axis_set)

lemma stop_block_eq:
  "ifs (\<lambda>s. required = 0 \<and> jog_running ax s \<noteq> 0)
       (seq (stop_axis ax) (upd (set_jog ax 0)))
       (ret ()) s = (Inr (), stop_block ax required s)"
  by (simp add: ifs_def ret_def stop_block_def stop_axis_set)

lemma start_block_eq:
  "ifs (\<lambda>s. required \<noteq> 0 \<and>
            (of_int (sgn (jog_running ax s)) \<noteq> sgn required \<or> jog_running ax s = 0))
       (if v > 0 then seq (start_jog ax True) (upd (set_jog ax 1))
        else if v < 0 then seq (start_jog ax False) (upd (set_jog ax (- 1)))
        else ret ())
       (ret ()) s = (Inr (), start_block ax required v s)"
  by (simp add: ifs_def ret_def start_block_def start_jog_set)

lemma seq_app:
  "seq m n s = (case m s of (Inl e, s') \<Rightarrow> (Inl e, s') | (Inr a, s') \<Rightarrow> n s')"
  by (simp add: seq_def bnd_def)

lemma xbox_joystick_move_blocks:
  "xbox_joystick_move js s =
     (Inr (),
      start_block AxisX (desired AxisX js) (x_left js)
       (start_block AxisY (desired AxisY js) (y_left js)
         (stop_block AxisY (desired AxisY js)
           (stop_block AxisX (desired AxisX js)
             (z_block (y_right js) s)))))"
proof -
  have ux: "\<And>v. (\<lambda>s::'a stagecontrol. s\<lparr>x_joystick_jog_running := v\<rparr>) = set_jog AxisX v"
    and uy: "\<And>v. (\<lambda>s::'a stagecontrol. s\<lparr>y_joystick_jog_running := v\<rparr>) = set_jog AxisY v"
    and uz: "\<And>v. (\<lambda>s::'a stagecontrol. s\<lparr>z_joystick_jog_running := v\<rparr>) = set_jog AxisZ v"
    by (simp_all add: set_jog_def fun_eq_iff)
  have jx: "(x_joystick_jog_running :: 'a stagecontrol \<Rightarrow> int) = jog_running AxisX"
    and jy: "(y_joystick_jog_running :: 'a stagecontrol \<Rightarrow> int) = jog_running AxisY"
    and jz: "(z_joystick_jog_running :: 'a stagecontrol \<Rightarrow> int) = jog_running AxisZ"
    by (simp_all add: jog_running_def fun_eq_iff)
  have dx: "fst (required_motion (x_left js) (y_left js)) = desired AxisX js"
    and dy: "snd (required_motion (x_left js) (y_left js)) = desired AxisY js"
    by (simp_all add: desired_def)
  show ?thesis
    unfolding xbox_joystick_move_def Let_def ux uy uz jx jy jz dx dy
    by (simp only: seq_app z_block_eq stop_block_eq start_block_eq prod.case sum.case)
qed

lemma jog_running_set_jog [simp]:
  "jog_running b (set_jog a v s) = (if b = a then v else jog_running b s)"
  by (cases a; cases b) (simp_all add: jog_running_def set_jog_def)

lemma jog_running_env [simp]:
  "jog_running b (s\<lparr>hw_script := rs, trace := tr\<rparr>) = jog_running b s"
  by (cases b) (simp_all add: jog_running_def)

lemma set_jog_fields [simp]:
  "trace (set_jog a v s) = trace s" "hw_script (set_jog a v s) = hw_script s"
  by (cases a; simp add: set_jog_def)+

lemma fire_fields [simp]:
  "jog_running b (fire c1 c2 a v s) = (if b = a then v else jog_running b s)"
  "trace (fire c1 c2 a v s) = trace s @ pair_events c1 c2 (hw_script s)"
  "hw_script (fire c1 c2 a v s) = pair_script (hw_script s)"
  by (simp_all add: fire_def)

lemma pair_events_mem:
  "e \<in> set (pair_events c1 c2 rs) \<Longrightarrow> e = Hw c1 \<or> e = Hw c2 \<or> e = LogError"
  by (auto simp: pair_events_def split: list.splits hw_reply.splits)

lemma pair_no_fault:
  "Raises \<notin> set rs \<Longrightarrow> pair_events c1 c2 rs = [Hw c1, Hw c2] \<and> Raises \<notin> set (pair_script rs)"
  by (auto simp: pair_events_def pair_script_def split: list.splits hw_reply.splits
      dest: in_set_dropD)

lemma desired_cases: "desired a js = 0 \<or> desired a js = 1 \<or> desired a js = - 1"
  by (cases a) (auto simp: desired_def required_motion_def sgn_real_def)

lemma desired_x: "desired AxisX js \<noteq> 0 \<Longrightarrow> desired AxisX js = sgn (x_left js)"
  by (auto simp: desired_def required_motion_def split: if_splits)

lemma desired_y: "desired AxisY js \<noteq> 0 \<Longrightarrow> desired AxisY js = sgn (y_left js)"
  by (auto simp: desired_def required_motion_def split: if_splits)

lemma sgn_desired [simp]: "sgn (desired a js) = desired a js"
  using desired_cases [of a js] by auto

text \<open>What each block adds to the trace.\<close>

lemma trace_z_block:
  "trace (z_block z s) = trace s @
     (if z = 0 \<and> jog_running AxisZ s \<noteq> 0
      then pair_events (StopAxis AxisZ) (SetOffsetVoltage AxisZ 0) (hw_script s)
      else if sgn z \<noteq> of_int (sgn (jog_running AxisZ s))
      then (if z > 0
            then pair_events (SetOffsetVoltage AxisZ 0) (StartContinuousMotion AxisZ False)
                   (hw_script s)
            else if z < 0
            then pair_events (SetOffsetVoltage AxisZ 0) (StartContinuousMotion AxisZ True)
                   (hw_script s)
            else [])
      else [])"
  by (simp add: z_block_def)

lemma trace_stop_block:
  "trace (stop_block a q s) = trace s @
     (if q = 0 \<and> jog_running a s \<noteq> 0
      then pair_events (StopAxis a) (SetOffsetVoltage a 0) (hw_script s) else [])"
  by (simp add: stop_block_def)

lemma trace_start_block:
  "trace (start_block a q v s) = trace s @
     (if q \<noteq> 0 \<and> (of_int (sgn (jog_running a s)) \<noteq> sgn q \<or> jog_running a s = 0)
      then (if v > 0
            then pair_events (SetOffsetVoltage a 0) (StartContinuousMotion a True) (hw_script s)
            else if v < 0
            then pair_events (SetOffsetVoltage a 0) (StartContinuousMotion a False) (hw_script s)
            else [])
      else [])"
  by (simp add: start_block_def)

text \<open>What each block does to the jog states.\<close>

lemma jog_z_block:
  "jog_running b (z_block z s) =
     (if b = AxisZ then
        (if z = 0 then 0
         else if sgn z = of_int (sgn (jog_running AxisZ s)) then jog_running AxisZ s
         else if z > 0 then 1 else - 1)
      else jog_running b s)"
  by (auto simp: z_block_def sgn_real_def split: if_splits)

lemma jog_stop_block:
  "jog_running b (stop_block a q s) =
     (if b = a \<and> q = 0 then 0 else jog_running b s)"
  by (auto simp: stop_block_def)

lemma jog_start_block:
  "jog_running b (start_block a q v s) =
     (if b = a \<and> q \<noteq> 0 \<and> (of_int (sgn (jog_running a s)) \<noteq> sgn q \<or> jog_running a s = 0)
      then (if v > 0 then 1 else if v < 0 then - 1 else jog_running a s)
      else jog_running b s)"
  by (auto simp: start_block_def)

text \<open>A block does nothing when the jog state already has the desired sign.\<close>

lemma z_block_idle: "of_int (sgn (jog_running AxisZ s)) = sgn z \<Longrightarrow> z_block z s = s"
  by (auto simp: z_block_def sgn_eq_0_iff)

lemma stop_block_idle: "of_int (sgn (jog_running a s)) = q \<Longrightarrow> stop_block a q s = s"
  by (auto simp: stop_block_def sgn_eq_0_iff)

lemma start_block_idle:
  "of_int (sgn (jog_running a s)) = q \<Longrightarrow> sgn q = q \<Longrightarrow> start_block a q v s = s"
  by (auto simp: start_block_def)

lemma drop_trace: "drop (length tr) (tr @ es) = es"
  by simp

lemma joystick_new_events:
  "drop (length (trace s)) (trace (snd (xbox_joystick_move js s))) =
     drop (length (trace s)) (trace (z_block (y_right js) s))
     @ drop (length (trace (z_block (y_right js) s)))
         (trace (stop_block AxisX (desired AxisX js) (z_block (y_right js) s)))
     @ drop (length (trace (stop_block AxisX (desired AxisX js) (z_block (y_right js) s))))
         (trace (stop_block AxisY (desired AxisY js)
            (stop_block AxisX (desired AxisX js) (z_block (y_right js) s))))
     @ drop (length (trace (stop_block AxisY (desired AxisY js)
            (stop_block AxisX (desired AxisX js) (z_block (y_right js) s)))))
         (trace (start_block AxisY (desired AxisY js) (y_left js)
            (stop_block AxisY (desired AxisY js)
              (stop_block AxisX (desired AxisX js) (z_block (y_right js) s)))))
     @ drop (length (trace (start_block AxisY (desired AxisY js) (y_left js)
            (stop_block AxisY (desired AxisY js)
              (stop_block AxisX (desired AxisX js) (z_block (y_right js) s))))))
         (trace (start_block AxisX (desired AxisX js) (x_left js)
            (start_block AxisY (desired AxisY js) (y_left js)
              (stop_block AxisY (desired AxisY js)
                (stop_block AxisX (desired AxisX js) (z_block (y_right js) s))))))"
  by (simp add: xbox_joystick_move_blocks trace_start_block trace_stop_block trace_z_block)

lemma z_block_calls:
  "(Hw (StartContinuousMotion a d) \<in> set (drop (length (trace s)) (trace (z_block z s))) \<longrightarrow>
      a = AxisZ \<and> sgn z \<noteq> 0 \<and> sgn z \<noteq> of_int (sgn (jog_running AxisZ s)) \<and>
      of_int (jog_sign a d) = sgn z) \<and>
   (Hw (StopAxis a) \<in> set (drop (length (trace s)) (trace (z_block z s))) \<longrightarrow>
      a = AxisZ \<and> sgn z = 0 \<and> jog_running AxisZ s \<noteq> 0)"
  by (auto simp: trace_z_block jog_sign_def sgn_real_def dest!: pair_events_mem split: if_splits)

lemma stop_block_calls:
  "Hw (StartContinuousMotion b d) \<notin> set (drop (length (trace s)) (trace (stop_block a q s))) \<and>
   (Hw (StopAxis b) \<in> set (drop (length (trace s)) (trace (stop_block a q s))) \<longrightarrow>
      b = a \<and> q = 0 \<and> jog_running a s \<noteq> 0)"
  by (auto simp: trace_stop_block dest!: pair_events_mem split: if_splits)

lemma start_block_calls:
  "Hw (StopAxis b) \<notin> set (drop (length (trace s)) (trace (start_block a q v s))) \<and>
   (Hw (StartContinuousMotion b d) \<in> set (drop (length (trace s)) (trace (start_block a q v s)))
      \<longrightarrow> b = a \<and> q \<noteq> 0 \<and> (of_int (sgn (jog_running a s)) \<noteq> sgn q \<or> jog_running a s = 0) \<and>
          (d \<longleftrightarrow> v > 0) \<and> v \<noteq> 0)"
  by (auto simp: trace_start_block dest!: pair_events_mem split: if_splits)

lemma joystick_start_calls:
  assumes "Hw (StartContinuousMotion a d) \<in>
             set (drop (length (trace s)) (trace (snd (xbox_joystick_move js s))))"
  shows "desired a js \<noteq> 0 \<and> desired a js \<noteq> of_int (sgn (jog_running a s)) \<and>
         of_int (jog_sign a d) = desired a js"
proof -
  let ?s1 = "z_block (y_right js) s"
  let ?s2 = "stop_block AxisX (desired AxisX js) ?s1"
  let ?s3 = "stop_block AxisY (desired AxisY js) ?s2"
  let ?s4 = "start_block AxisY (desired AxisY js) (y_left js) ?s3"
  let ?s5 = "start_block AxisX (desired AxisX js) (x_left js) ?s4"
  from assms consider
      (z) "Hw (StartContinuousMotion a d) \<in> set (drop (length (trace s)) (trace ?s1))"
    | (sx) "Hw (StartContinuousMotion a d) \<in> set (drop (length (trace ?s1)) (trace ?s2))"
    | (sy) "Hw (StartContinuousMotion a d) \<in> set (drop (length (trace ?s2)) (trace ?s3))"
    | (y) "Hw (StartContinuousMotion a d) \<in> set (drop (length (trace ?s3)) (trace ?s4))"
    | (x) "Hw (StartContinuousMotion a d) \<in> set (drop (length (trace ?s4)) (trace ?s5))"
    by (simp only: joystick_new_events set_append Un_iff) blast
  then show ?thesis
  proof cases
    case z
    with z_block_calls [of a d s "y_right js"] show ?thesis
      by (auto simp: desired_def)
  next
    case sx
    with stop_block_calls [of a d ?s1 AxisX "desired AxisX js"] show ?thesis by auto
  next
    case sy
    with stop_block_calls [of a d ?s2 AxisY "desired AxisY js"] show ?thesis by auto
  next
    case y
    with start_block_calls [of a ?s3 AxisY "desired AxisY js" "y_left js" d]
    have a: "a = AxisY" and q: "desired AxisY js \<noteq> 0"
      and c: "of_int (sgn (jog_running AxisY ?s3)) \<noteq> sgn (desired AxisY js) \<or>
              jog_running AxisY ?s3 = 0"
      and d: "d \<longleftrightarrow> y_left js > 0" and v: "y_left js \<noteq> 0"
      by auto
    have j: "jog_running AxisY ?s3 = jog_running AxisY s"
      using q by (simp add: jog_stop_block jog_z_block)
    have e: "desired AxisY js = sgn (y_left js)" using q by (rule desired_y)
    from c q have "desired AxisY js \<noteq> of_int (sgn (jog_running AxisY s))"
      unfolding j by auto
    moreover have "of_int (jog_sign AxisY d) = desired AxisY js"
      using d v by (auto simp: e jog_sign_def sgn_real_def)
    ultimately show ?thesis using a q by simp
  next
    case x
    with start_block_calls [of a ?s4 AxisX "desired AxisX js" "x_left js" d]
    have a: "a = AxisX" and q: "desired AxisX js \<noteq> 0"
      and c: "of_int (sgn (jog_running AxisX ?s4)) \<noteq> sgn (desired AxisX js) \<or>
              jog_running AxisX ?s4 = 0"
      and d: "d \<longleftrightarrow> x_left js > 0" and v: "x_left js \<noteq> 0"
      by auto
    have j: "jog_running AxisX ?s4 = jog_running AxisX s"
      using q by (simp add: jog_start_block jog_stop_block jog_z_block)
    have e: "desired AxisX js = sgn (x_left js)" using q by (rule desired_x)
    from c q have "desired AxisX js \<noteq> of_int (sgn (jog_running AxisX s))"
      unfolding j by auto
    moreover have "of_int (jog_sign AxisX d) = desired AxisX js"
      using d v by (auto simp: e jog_sign_def sgn_real_def)
    ultimately show ?thesis using a q by simp
  qed
qed

lemma joystick_stop_calls:
  assumes "Hw (StopAxis a) \<in>
             set (drop (length (trace s)) (trace (snd (xbox_joystick_move js s))))"
  shows "desired a js = 0 \<and> jog_running a s \<noteq> 0"
proof -
  let ?s1 = "z_block (y_right js) s"
  let ?s2 = "stop_block AxisX (desired AxisX js) ?s1"
  let ?s3 = "stop_block AxisY (desired AxisY js) ?s2"
  let ?s4 = "start_block AxisY (desired AxisY js) (y_left js) ?s3"
  let ?s5 = "start_block AxisX (desired AxisX js) (x_left js) ?s4"
  from assms consider
      (z) "Hw (StopAxis a) \<in> set (drop (length (trace s)) (trace ?s1))"
    | (sx) "Hw (StopAxis a) \<in> set (drop (length (trace ?s1)) (trace ?s2))"
    | (sy) "Hw (StopAxis a) \<in> set (drop (length (trace ?s2)) (trace ?s3))"
    | (y) "Hw (StopAxis a) \<in> set (drop (length (trace ?s3)) (trace ?s4))"
    | (x) "Hw (StopAxis a) \<in> set (drop (length (trace ?s4)) (trace ?s5))"
    by (simp only: joystick_new_events set_append Un_iff) blast
  then show ?thesis
  proof cases
    case z
    with z_block_calls [of a True s "y_right js"] show ?thesis
      by (auto simp: desired_def)
  next
    case sx
    with stop_block_calls [of a True ?s1 AxisX "desired AxisX js"] show ?thesis
      by (auto simp: jog_z_block)
  next
    case sy
    with stop_block_calls [of a True ?s2 AxisY "desired AxisY js"] show ?thesis
      by (auto simp: jog_stop_block jog_z_block)
  next
    case y
    with start_block_calls [of a ?s3 AxisY "desired AxisY js" "y_left js" True] show ?thesis
      by auto
  next
    case x
    with start_block_calls [of a ?s4 AxisX "desired AxisX js" "x_left js" True] show ?thesis
      by auto
  qed
qed

text \<open>After a sample every jog state has the sign the sample asks for.\<close>

lemma joystick_settled:
  "of_int (sgn (jog_running a (snd (xbox_joystick_move js s)))) = desired a js"
proof (cases a)
  case AxisX
  show ?thesis
    using desired_cases [of AxisX js] desired_x [of js]
    by (auto simp: AxisX xbox_joystick_move_blocks jog_start_block jog_stop_block jog_z_block
        sgn_real_def split: if_splits)
next
  case AxisY
  show ?thesis
    using desired_cases [of AxisY js] desired_y [of js]
    by (auto simp: AxisY xbox_joystick_move_blocks jog_start_block jog_stop_block jog_z_block
        sgn_real_def split: if_splits)
next
  case AxisZ
  show ?thesis
    by (auto simp: AxisZ xbox_joystick_move_blocks jog_start_block jog_stop_block jog_z_block
        desired_def sgn_real_def split: if_splits)
qed

lemma joystick_idle:
  assumes "\<forall>a. of_int (sgn (jog_running a s)) = desired a js"
  shows "xbox_joystick_move js s = (Inr (), s)"
proof -
  have z: "z_block (y_right js) s = s"
    using assms [rule_format, of AxisZ] by (simp add: z_block_idle desired_def)
  have x: "stop_block AxisX (desired AxisX js) s = s"
          "start_block AxisX (desired AxisX js) (x_left js) s = s"
    using assms [rule_format, of AxisX] by (simp_all add: stop_block_idle start_block_idle)
  have y: "stop_block AxisY (desired AxisY js) s = s"
          "start_block AxisY (desired AxisY js) (y_left js) s = s"
    using assms [rule_format, of AxisY] by (simp_all add: stop_block_idle start_block_idle)
  show ?thesis by (simp add: xbox_joystick_move_blocks z x y)
qed

lemma joystick_repeat:
  "xbox_joystick_move js (snd (xbox_joystick_move js s)) = (Inr (), snd (xbox_joystick_move js s))"
  by (rule joystick_idle) (simp add: joystick_settled)

text \<open>Without faults the jog states stay equal to the directions last sent.\<close>

lemma commanded_append:
  "commanded a d (es @ fs) = commanded a (commanded a d es) fs"
  by (induction a d es rule: commanded.induct) simp_all

lemma fire_start_inv:
  assumes "no_fault s" and "\<forall>b. jog_running b s = commanded b 0 (trace s)"
    and "v = jog_sign a d"
  shows "no_fault (fire (SetOffsetVoltage a 0) (StartContinuousMotion a d) a v s) \<and>
         (\<forall>b. jog_running b (fire (SetOffsetVoltage a 0) (StartContinuousMotion a d) a v s) =
              commanded b 0 (trace (fire (SetOffsetVoltage a 0) (StartContinuousMotion a d) a v s)))"
  using assms pair_no_fault [of "hw_script s" "SetOffsetVoltage a 0" "StartContinuousMotion a d"]
  by (simp add: no_fault_def commanded_append)

lemma fire_stop_inv:
  assumes "no_fault s" and "\<forall>b. jog_running b s = commanded b 0 (trace s)"
  shows "no_fault (fire (StopAxis a) (SetOffsetVoltage a 0) a 0 s) \<and>
         (\<forall>b. jog_running b (fire (StopAxis a) (SetOffsetVoltage a 0) a 0 s) =
              commanded b 0 (trace (fire (StopAxis a) (SetOffsetVoltage a 0) a 0 s)))"
  using assms pair_no_fault [of "hw_script s" "StopAxis a" "SetOffsetVoltage a 0"]
  by (simp add: no_fault_def commanded_append)

lemma z_block_inv:
  assumes "no_fault s" and "\<forall>b. jog_running b s = commanded b 0 (trace s)"
  shows "no_fault (z_block z s) \<and>
         (\<forall>b. jog_running b (z_block z s) = commanded b 0 (trace (z_block z s)))"
  unfolding z_block_def
  using assms fire_stop_inv [OF assms, of AxisZ]
    fire_start_inv [OF assms, of 1 AxisZ False] fire_start_inv [OF assms, of "- 1" AxisZ True]
  by (simp add: jog_sign_def)

lemma stop_block_inv:
  assumes "no_fault s" and "\<forall>b. jog_running b s = commanded b 0 (trace s)"
  shows "no_fault (stop_block a q s) \<and>
         (\<forall>b. jog_running b (stop_block a q s) = commanded b 0 (trace (stop_block a q s)))"
  unfolding stop_block_def
  using assms fire_stop_inv [OF assms, of a]
  by simp

lemma start_block_inv:
  assumes "no_fault s" and "\<forall>b. jog_running b s = commanded b 0 (trace s)"
    and "a \<noteq> AxisZ"
  shows "no_fault (start_block a q v s) \<and>
         (\<forall>b. jog_running b (start_block a q v s) =
              commanded b 0 (trace (start_block a q v s)))"
  unfolding start_block_def
  using assms fire_start_inv [OF assms(1,2), of 1 a True]
    fire_start_inv [OF assms(1,2), of "- 1" a False]
  by (simp add: jog_sign_def)

lemma joystick_inv:
  assumes "no_fault s" and "\<forall>b. jog_running b s = commanded b 0 (trace s)"
  shows "no_fault (snd (xbox_joystick_move js s)) \<and>
         (\<forall>b. jog_running b (snd (xbox_joystick_move js s)) =
              commanded b 0 (trace (snd (xbox_joystick_move js s))))"
proof -
  note 1 = z_block_inv [OF assms, of "y_right js"]
  note 2 = stop_block_inv [OF 1 [THEN conjunct1] 1 [THEN conjunct2], of AxisX "desired AxisX js"]
  note 3 = stop_block_inv [OF 2 [THEN conjunct1] 2 [THEN conjunct2], of AxisY "desired AxisY js"]
  have y: "AxisY \<noteq> AxisZ" and x: "AxisX \<noteq> AxisZ" by simp_all
  note 4 = start_block_inv [OF 3 [THEN conjunct1] 3 [THEN conjunct2] y,
             of "desired AxisY js" "y_left js"]
  note 5 = start_block_inv [OF 4 [THEN conjunct1] 4 [THEN conjunct2] x,
             of "desired AxisX js" "x_left js"]
  show ?thesis unfolding xbox_joystick_move_blocks snd_conv by (rule 5)
qed

lemma joystick_run_inv:
  assumes "no_fault s" and "\<forall>b. jog_running b s = commanded b 0 (trace s)"
  shows "no_fault (joystick_run samples s) \<and>
         (\<forall>b. jog_running b (joystick_run samples s) =
              commanded b 0 (trace (joystick_run samples s)))"
  using assms
proof (induction samples arbitrary: s)
  case Nil
  then show ?case by (simp add: joystick_run_def)
next
  case (Cons js samples)
  note step = joystick_inv [OF Cons.prems, of js]
  have "joystick_run (js # samples) s = joystick_run samples (snd (xbox_joystick_move js s))"
    by (simp add: joystick_run_def)
  with Cons.IH [OF step [THEN conjunct1] step [THEN conjunct2]] show ?case by simp
qed

lemma on_activate_inv:
  "\<forall>b. jog_running b (on_activate script) = commanded b 0 (trace (on_activate script))"
  by (auto simp: on_activate_def jog_running_def split: axis.splits)

section \<open>The claims\<close>

subsection \<open>Step sweep\<close>

text \<open>
  Claim C1. A step sweep started by \<open>optimise_z stepCount voltCount\<close> with
  \<open>stepCount > 0\<close> whose sampling loop runs to completion (the counter is running at
  every expiry, nobody aborts, no positioner call raises) takes \<open>2 * stepCount + 1\<close>
  samples. With \<open>maxIndex\<close> the index of the first maximum of the samples, the return
  offset is \<open>2 * stepCount - maxIndex\<close>; the sweep then issues exactly one move of
  that many steps in the negative direction when the offset is not 0, and no move when it
  is 0. The theorem gives the whole trace of the sweep.
\<close>

theorem step_sweep_return_move:
  assumes "0 < stepCount" and "no_fault s" and "pending s = []"
    and "length samples = nat (2 * stepCount) + 1"
  shows "\<exists>maxIndex. np_argmax samples = Inr maxIndex \<and> maxIndex < length samples \<and>
           (\<forall>j<length samples. samples ! j \<le> samples ! maxIndex) \<and>
           (\<forall>j<maxIndex. samples ! j < samples ! maxIndex) \<and>
           0 \<le> 2 * stepCount - int maxIndex \<and>
           trace (run (map live_tick samples) (snd (optimise_z stepCount voltCount s))) =
             trace s @ [Hw (SetOffsetVoltage AxisZ 0), Hw (MoveSteps AxisZ (- stepCount)), StartCount]
             @ concat (map (\<lambda>c. [SigCountDataUpdated, Hw (MoveSteps AxisZ 1)]) (butlast samples))
             @ [SigCountDataUpdated, LogDebug]
             @ (if 2 * stepCount - int maxIndex = 0 then []
                else [Hw (MoveSteps AxisZ (- (2 * stepCount - int maxIndex)))])
             @ (if 0 < voltCount then [] else [SigOptimisationDone])"
proof -
  from assms(4) have ne: "samples \<noteq> []" by auto
  then obtain cs c where sc: "samples = cs @ [c]" by (metis rev_exhaust)
  from np_argmax_first_max [OF ne] obtain m where
    m: "np_argmax samples = Inr m" "m < length samples"
       "\<forall>j<length samples. samples ! j \<le> samples ! m" "\<forall>j<m. samples ! j < samples ! m"
    by blast
  have len: "int (length cs) = 2 * stepCount" using assms(1,4) by (simp add: sc)
  have off: "0 \<le> 2 * stepCount - int m" using m(2) assms(1,4) by simp
  have am: "np_argmax (cs @ [c]) = Inr m" using m(1) by (simp add: sc)
  have tr: "trace (run (map live_tick samples) (snd (optimise_z stepCount voltCount s))) =
             trace s @ [Hw (SetOffsetVoltage AxisZ 0), Hw (MoveSteps AxisZ (- stepCount)), StartCount]
             @ concat (map (\<lambda>c. [SigCountDataUpdated, Hw (MoveSteps AxisZ 1)]) (butlast samples))
             @ [SigCountDataUpdated, LogDebug]
             @ (if 2 * stepCount - int m = 0 then []
                else [Hw (MoveSteps AxisZ (- (2 * stepCount - int m)))])
             @ (if 0 < voltCount then [] else [SigOptimisationDone])"
    unfolding sc using off
    by (subst step_sweep_complete [OF assms(1) assms(2) assms(3) len am]) auto
  from m off tr show ?thesis by blast
qed

theorem step_sweep_return_move_witness:
  "np_argmax [1, 5, 2 :: int] = Inr 1 \<and>
   trace (run (map live_tick [1, 5, 2 :: int]) (snd (optimise_z 1 0 (on_activate [])))) =
     [Hw (SetOffsetVoltage AxisZ 0), Hw (MoveSteps AxisZ (- 1)), StartCount,
      SigCountDataUpdated, Hw (MoveSteps AxisZ 1), SigCountDataUpdated, Hw (MoveSteps AxisZ 1),
      SigCountDataUpdated, LogDebug, Hw (MoveSteps AxisZ (- 1)), SigOptimisationDone]"
proof -
  have h1: "0 < (1::int)" by simp
  have h2: "no_fault (on_activate [] :: int stagecontrol)"
    by (simp add: no_fault_def on_activate_def)
  have h3: "pending (on_activate [] :: int stagecontrol) = []" by (simp add: on_activate_def)
  have h4: "length [1, 5, 2 :: int] = nat (2 * 1) + 1" by simp
  have am: "np_argmax [1, 5, 2 :: int] = Inr 1" by (simp add: np_argmax_def)
  from step_sweep_return_move [OF h1 h2 h3 h4, of 0] am show ?thesis
    by (simp add: on_activate_def)
qed

text \<open>
  Claim C9. In a step sweep that completes, the cursor runs from \<open>- stepCount\<close> to
  \<open>stepCount\<close>, one sample per expiry: after \<open>k \<le> 2 * stepCount\<close> expiries the loop
  is still armed, the cursor is \<open>- stepCount + k\<close> and \<open>k\<close> samples are stored; the
  next expiry ends the loop with \<open>2 * stepCount + 1\<close> samples. The return offset is
  therefore never negative, and the completing expiry issues no move with a count that is
  not negative.
\<close>

theorem step_sweep_sample_count:
  fixes s :: "'s::linorder stagecontrol" and stepCount voltCount :: int
  assumes "0 < stepCount" and "no_fault s" and "pending s = []"
    and "length samples = nat (2 * stepCount) + 1"
  defines "s0 \<equiv> snd (optimise_z stepCount voltCount s)"
  defines "final \<equiv> run (map live_tick samples) s0"
  shows "(\<forall>k\<le>nat (2 * stepCount).
            pending (run (map live_tick (take k samples)) s0) =
              [(if k = 0 then 400 else 100, OptimisationStep)] \<and>
            current_step (run (map live_tick (take k samples)) s0) = - stepCount + int k \<and>
            sweep_counts (run (map live_tick (take k samples)) s0) = take k samples) \<and>
         pending final = (if 0 < voltCount then [(400, StartVoltOptimisation)] else []) \<and>
         current_step final = stepCount \<and>
         sweep_counts final = samples \<and>
         length (sweep_counts final) = nat (2 * stepCount) + 1 \<and>
         (\<exists>maxIndex. np_argmax (sweep_counts final) = Inr maxIndex \<and>
                     0 \<le> 2 * stepCount - int maxIndex) \<and>
         (\<forall>ax k. Hw (MoveSteps ax k) \<in> set (drop (length (trace
                     (run (map live_tick (butlast samples)) s0))) (trace final)) \<longrightarrow> k < 0)"
proof -
  from assms(4) have ne: "samples \<noteq> []" by auto
  then obtain cs c where sc: "samples = cs @ [c]" by (metis rev_exhaust)
  from np_argmax_first_max [OF ne] obtain m where
    m: "np_argmax samples = Inr m" "m < length samples" by blast
  have len: "int (length cs) = 2 * stepCount" using assms(1,4) by (simp add: sc)
  have off: "0 \<le> 2 * stepCount - int m" using m(2) assms(1,4) by simp
  have am: "np_argmax (cs @ [c]) = Inr m" using m(1) by (simp add: sc)
  note fin = step_sweep_complete [OF assms(1) assms(2) assms(3) len am, of voltCount]
  have le: "int (length cs) \<le> 2 * stepCount" using len by simp
  note pre = step_sweep_prefix [OF assms(1) assms(2) assms(3) le, of voltCount]
  have A: "\<forall>k\<le>nat (2 * stepCount).
            pending (run (map live_tick (take k samples)) s0) =
              [(if k = 0 then 400 else 100, OptimisationStep)] \<and>
            current_step (run (map live_tick (take k samples)) s0) = - stepCount + int k \<and>
            sweep_counts (run (map live_tick (take k samples)) s0) = take k samples"
  proof (intro allI impI)
    fix k assume k: "k \<le> nat (2 * stepCount)"
    then have lk: "int (length (take k samples)) \<le> 2 * stepCount"
      using assms(1,4) by simp
    have kk: "length (take k samples) = k" using k assms(4) by simp
    show "pending (run (map live_tick (take k samples)) s0) =
              [(if k = 0 then 400 else 100, OptimisationStep)] \<and>
            current_step (run (map live_tick (take k samples)) s0) = - stepCount + int k \<and>
            sweep_counts (run (map live_tick (take k samples)) s0) = take k samples"
      unfolding s0_def
      using ne kk
      by (simp add: step_sweep_prefix [OF assms(1) assms(2) assms(3) lk, of voltCount])
  qed
  have B: "pending final = (if 0 < voltCount then [(400, StartVoltOptimisation)] else [])"
    unfolding final_def s0_def sc by (subst fin) simp
  have C: "current_step final = stepCount"
    unfolding final_def s0_def sc by (subst fin) simp
  have D: "sweep_counts final = samples"
    unfolding final_def s0_def sc by (subst fin) simp
  have E: "length (sweep_counts final) = nat (2 * stepCount) + 1"
    unfolding D by (rule assms(4))
  have F: "\<exists>maxIndex. np_argmax (sweep_counts final) = Inr maxIndex \<and>
                     0 \<le> 2 * stepCount - int maxIndex"
    unfolding D using m(1) off by blast
  let ?P = "trace s @ [Hw (SetOffsetVoltage AxisZ 0), Hw (MoveSteps AxisZ (- stepCount)), StartCount]
             @ concat (map (\<lambda>c. [SigCountDataUpdated, Hw (MoveSteps AxisZ 1)]) cs)"
  let ?T = "[SigCountDataUpdated, LogDebug]
             @ (if 0 < 2 * stepCount - int m
                then [Hw (MoveSteps AxisZ (- (2 * stepCount - int m)))] else [])
             @ (if 0 < voltCount then [] else [SigOptimisationDone])"
  have tp: "trace (run (map live_tick (butlast samples)) s0) = ?P"
    unfolding s0_def sc butlast_snoc by (subst pre) simp
  have tf: "trace final = ?P @ ?T"
    unfolding final_def s0_def sc by (subst fin) simp
  have dr: "drop (length (trace (run (map live_tick (butlast samples)) s0))) (trace final) = ?T"
    unfolding tp tf by (rule append_eq_conv_conj [THEN iffD1, THEN conjunct2, symmetric]) simp
  have G: "\<forall>ax k. Hw (MoveSteps ax k) \<in> set (drop (length (trace
                     (run (map live_tick (butlast samples)) s0))) (trace final)) \<longrightarrow> k < 0"
    unfolding dr by (auto split: if_splits)
  from A B C D E F G show ?thesis by blast
qed

theorem step_sweep_sample_count_witness:
  "length (sweep_counts (run (map live_tick [1, 5, 2 :: int])
       (snd (optimise_z 1 0 (on_activate []))))) = 3 \<and>
   current_step (run (map live_tick [1, 5, 2 :: int]) (snd (optimise_z 1 0 (on_activate [])))) = 1"
proof -
  have h1: "0 < (1::int)" by simp
  have h2: "no_fault (on_activate [] :: int stagecontrol)"
    by (simp add: no_fault_def on_activate_def)
  have h3: "pending (on_activate [] :: int stagecontrol) = []" by (simp add: on_activate_def)
  have h4: "length [1, 5, 2 :: int] = nat (2 * 1) + 1" by simp
  from step_sweep_sample_count [OF h1 h2 h3 h4, where voltCount = 0] show ?thesis
    by simp
qed

subsection \<open>Voltage sweep\<close>

text \<open>
  Claim C2. A voltage sweep (entered through \<open>start_volt_optimisation\<close>, directly from
  \<open>optimise_z\<close> or chained after a step sweep) whose sampling loop runs to completion
  (the counter is running at every expiry, nobody aborts, no positioner call raises) writes
  to the z axis exactly the offset voltages \<open>0, 1, ..., voltCount - 1\<close>, one per expiry and
  in this order, and then once more the index of the first maximum of the samples. The
  theorem gives the whole trace of the sweep and the list of offset voltages written.
\<close>

theorem volt_sweep_offsets:
  fixes s :: "'s::linorder stagecontrol"
  assumes "\<not> abort s" and "no_fault s" and "pending s = []"
    and "0 < v_sweep_length s"
    and "length samples = nat (v_sweep_length s) + 1"
  defines "voltCount \<equiv> v_sweep_length s"
  defines "final \<equiv> run (map live_tick samples) (snd (start_volt_optimisation s))"
  shows "\<exists>maxIndex. np_argmax samples = Inr maxIndex \<and> maxIndex < length samples \<and>
           (\<forall>j<length samples. samples ! j \<le> samples ! maxIndex) \<and>
           (\<forall>j<maxIndex. samples ! j < samples ! maxIndex) \<and>
           trace final =
             trace s @ [LogDebug, Hw (MoveSteps AxisZ (- (voltCount div 20 + 1))), StartCount]
             @ concat (map (\<lambda>i. [SigCountDataUpdated, Hw (SetOffsetVoltage AxisZ (int i))])
                        [0..<nat voltCount])
             @ [SigCountDataUpdated, LogDebug, Hw (SetOffsetVoltage AxisZ (int maxIndex)),
                SigOptimisationDone] \<and>
           offset_writes AxisZ (drop (length (trace s)) (trace final)) =
             map int [0..<nat voltCount] @ [int maxIndex]"
proof -
  from assms(5) have ne: "samples \<noteq> []" by auto
  then obtain cs c where sc: "samples = cs @ [c]" by (metis rev_exhaust)
  from np_argmax_first_max [OF ne] obtain m where
    m: "np_argmax samples = Inr m" "m < length samples"
       "\<forall>j<length samples. samples ! j \<le> samples ! m" "\<forall>j<m. samples ! j < samples ! m"
    by blast
  have len: "int (length cs) = v_sweep_length s" using assms(4,5) by (simp add: sc)
  have lenn: "length cs = nat voltCount" using len by (simp add: voltCount_def)
  have am: "np_argmax (cs @ [c]) = Inr m" using m(1) by (simp add: sc)
  note fin = volt_sweep_complete [OF assms(1) assms(2) assms(3) len am]
  let ?T = "[LogDebug, Hw (MoveSteps AxisZ (- (voltCount div 20 + 1))), StartCount]
             @ concat (map (\<lambda>i. [SigCountDataUpdated, Hw (SetOffsetVoltage AxisZ (0 + int i))])
                        [0..<nat voltCount])
             @ [SigCountDataUpdated, LogDebug, Hw (SetOffsetVoltage AxisZ (int m)),
                SigOptimisationDone]"
  have tr: "trace final = trace s @ ?T"
    unfolding final_def sc by (subst fin) (simp add: lenn voltCount_def)
  have dr: "drop (length (trace s)) (trace final) = ?T"
    unfolding tr by simp
  have ow: "offset_writes AxisZ (drop (length (trace s)) (trace final)) =
             map int [0..<nat voltCount] @ [int m]"
    unfolding dr using offset_writes_ticks [of 0 "nat voltCount"]
    by (simp add: offset_writes_append)
  from m tr ow show ?thesis by auto
qed

theorem volt_sweep_offsets_witness:
  "offset_writes AxisZ (trace (run (map live_tick [1, 5, 2 :: int])
       (snd (start_volt_optimisation ((on_activate [])\<lparr>v_sweep_length := 2\<rparr>))))) = [0, 1, 1]"
proof -
  let ?s = "(on_activate [])\<lparr>v_sweep_length := 2\<rparr> :: int stagecontrol"
  have h1: "\<not> abort ?s" by (simp add: on_activate_def)
  have h2: "no_fault ?s" by (simp add: no_fault_def on_activate_def)
  have h3: "pending ?s = []" by (simp add: on_activate_def)
  have h4: "0 < v_sweep_length ?s" by simp
  have h5: "length [1, 5, 2 :: int] = nat (v_sweep_length ?s) + 1" by simp
  have am: "np_argmax [1, 5, 2 :: int] = Inr 1" by (simp add: np_argmax_def)
  have tr: "trace ?s = []" by (simp add: on_activate_def)
  have up: "[0..<2] = [0, Suc 0]" by (simp add: upt_conv_Cons)
  from volt_sweep_offsets [OF h1 h2 h3 h4 h5] am tr show ?thesis
    by (simp add: up)
qed

text \<open>
  Claim C10. A voltage sweep that completes stores \<open>voltCount + 1\<close> samples, one for each
  cursor value from 0 to \<open>voltCount\<close>. The sample for a cursor value is read before the
  offset voltage of that value is written: after \<open>k \<le> voltCount\<close> expiries, \<open>k\<close>
  samples are stored and the voltages written are \<open>0, ..., k - 1\<close>. The index written at
  the end is at most \<open>voltCount\<close>, and it is \<open>voltCount\<close>, one more than the largest
  voltage written while sampling, when the last sample is greater than all the others.
\<close>

theorem volt_sweep_sample_count:
  fixes s :: "'s::linorder stagecontrol"
  assumes "\<not> abort s" and "no_fault s" and "pending s = []"
    and "0 < v_sweep_length s"
    and "length samples = nat (v_sweep_length s) + 1"
  defines "voltCount \<equiv> v_sweep_length s"
  defines "s0 \<equiv> snd (start_volt_optimisation s)"
  defines "final \<equiv> run (map live_tick samples) s0"
  shows "(\<forall>k\<le>nat voltCount.
            pending (run (map live_tick (take k samples)) s0) =
              [(if k = 0 then 400 else 100, VoltOptimisationStep)] \<and>
            current_v_step (run (map live_tick (take k samples)) s0) = int k \<and>
            sweep_counts (run (map live_tick (take k samples)) s0) = take k samples \<and>
            offset_writes AxisZ (drop (length (trace s))
               (trace (run (map live_tick (take k samples)) s0))) = map int [0..<k]) \<and>
         pending final = [] \<and>
         sweep_counts final = samples \<and>
         length (sweep_counts final) = nat voltCount + 1 \<and>
         (\<exists>maxIndex. np_argmax (sweep_counts final) = Inr maxIndex \<and>
            maxIndex \<le> nat voltCount \<and>
            offset_writes AxisZ (drop (length (trace s)) (trace final)) =
              map int [0..<nat voltCount] @ [int maxIndex] \<and>
            ((\<forall>j<nat voltCount. samples ! j < samples ! nat voltCount) \<longrightarrow>
               maxIndex = nat voltCount))"
proof -
  from assms(5) have ne: "samples \<noteq> []" by auto
  then obtain cs c where sc: "samples = cs @ [c]" by (metis rev_exhaust)
  from np_argmax_first_max [OF ne] obtain m where
    m: "np_argmax samples = Inr m" "m < length samples"
       "\<forall>j<length samples. samples ! j \<le> samples ! m" "\<forall>j<m. samples ! j < samples ! m"
    by blast
  have len: "int (length cs) = v_sweep_length s" using assms(4,5) by (simp add: sc)
  have lenn: "length cs = nat voltCount" using len by (simp add: voltCount_def)
  have am: "np_argmax (cs @ [c]) = Inr m" using m(1) by (simp add: sc)
  note fin = volt_sweep_complete [OF assms(1) assms(2) assms(3) len am]
  have A: "\<forall>k\<le>nat voltCount.
            pending (run (map live_tick (take k samples)) s0) =
              [(if k = 0 then 400 else 100, VoltOptimisationStep)] \<and>
            current_v_step (run (map live_tick (take k samples)) s0) = int k \<and>
            sweep_counts (run (map live_tick (take k samples)) s0) = take k samples \<and>
            offset_writes AxisZ (drop (length (trace s))
               (trace (run (map live_tick (take k samples)) s0))) = map int [0..<k]"
  proof (intro allI impI)
    fix k assume k: "k \<le> nat voltCount"
    then have lk: "int (length (take k samples)) \<le> v_sweep_length s"
      using assms(4,5) by (simp add: voltCount_def)
    have kk: "length (take k samples) = k" using k assms(5) by (simp add: voltCount_def)
    note pre = volt_sweep_prefix [OF assms(1) assms(2) assms(3) lk]
    let ?sk = "run (map live_tick (take k samples)) s0"
    let ?T = "[LogDebug, Hw (MoveSteps AxisZ (- (v_sweep_length s div 20 + 1))), StartCount]
                @ concat (map (\<lambda>i. [SigCountDataUpdated,
                     Hw (SetOffsetVoltage AxisZ (0 + int i))]) [0..<k])"
    have p: "pending ?sk = [(if k = 0 then 400 else 100, VoltOptimisationStep)]"
      unfolding s0_def using ne kk by (subst pre) auto
    have q: "current_v_step ?sk = int k"
      unfolding s0_def using kk by (subst pre) simp
    have r: "sweep_counts ?sk = take k samples"
      unfolding s0_def by (subst pre) simp
    have tr: "trace ?sk = trace s @ ?T"
      unfolding s0_def using kk by (subst pre) simp
    have dr: "drop (length (trace s)) (trace ?sk) = ?T"
      unfolding tr by simp
    have w: "offset_writes AxisZ (drop (length (trace s)) (trace ?sk)) = map int [0..<k]"
      unfolding dr using offset_writes_ticks [of 0 k] by (simp add: offset_writes_append)
    from p q r w show "pending ?sk = [(if k = 0 then 400 else 100, VoltOptimisationStep)] \<and>
            current_v_step ?sk = int k \<and> sweep_counts ?sk = take k samples \<and>
            offset_writes AxisZ (drop (length (trace s)) (trace ?sk)) = map int [0..<k]"
      by blast
  qed
  have B: "pending final = []"
    unfolding final_def s0_def sc by (subst fin) simp
  have D: "sweep_counts final = samples"
    unfolding final_def s0_def sc by (subst fin) simp
  have E: "length (sweep_counts final) = nat voltCount + 1"
    unfolding D voltCount_def by (rule assms(5))
  let ?T = "[LogDebug, Hw (MoveSteps AxisZ (- (voltCount div 20 + 1))), StartCount]
             @ concat (map (\<lambda>i. [SigCountDataUpdated, Hw (SetOffsetVoltage AxisZ (0 + int i))])
                        [0..<nat voltCount])
             @ [SigCountDataUpdated, LogDebug, Hw (SetOffsetVoltage AxisZ (int m)),
                SigOptimisationDone]"
  have tr: "trace final = trace s @ ?T"
    unfolding final_def s0_def sc by (subst fin) (simp add: lenn voltCount_def)
  have dr: "drop (length (trace s)) (trace final) = ?T"
    unfolding tr by simp
  have ow: "offset_writes AxisZ (drop (length (trace s)) (trace final)) =
             map int [0..<nat voltCount] @ [int m]"
    unfolding dr using offset_writes_ticks [of 0 "nat voltCount"]
    by (simp add: offset_writes_append)
  have mle: "m \<le> nat voltCount" using m(2) assms(5) by (simp add: voltCount_def)
  have top: "(\<forall>j<nat voltCount. samples ! j < samples ! nat voltCount) \<longrightarrow> m = nat voltCount"
  proof
    assume h: "\<forall>j<nat voltCount. samples ! j < samples ! nat voltCount"
    show "m = nat voltCount"
    proof (rule ccontr)
      assume "m \<noteq> nat voltCount"
      with mle have lt: "m < nat voltCount" by simp
      with h have "samples ! m < samples ! nat voltCount" by blast
      moreover have "samples ! nat voltCount \<le> samples ! m"
        using m(3) assms(5) by (simp add: voltCount_def)
      ultimately show False by simp
    qed
  qed
  have F: "\<exists>maxIndex. np_argmax (sweep_counts final) = Inr maxIndex \<and>
            maxIndex \<le> nat voltCount \<and>
            offset_writes AxisZ (drop (length (trace s)) (trace final)) =
              map int [0..<nat voltCount] @ [int maxIndex] \<and>
            ((\<forall>j<nat voltCount. samples ! j < samples ! nat voltCount) \<longrightarrow>
               maxIndex = nat voltCount)"
    unfolding D using m(1) mle ow top by blast
  from A B D E F show ?thesis by blast
qed

theorem volt_sweep_sample_count_witness:
  "length (sweep_counts (run (map live_tick [5, 2, 8 :: int])
       (snd (start_volt_optimisation ((on_activate [])\<lparr>v_sweep_length := 2\<rparr>))))) = 3 \<and>
   offset_writes AxisZ (trace (run (map live_tick [5, 2, 8 :: int])
       (snd (start_volt_optimisation ((on_activate [])\<lparr>v_sweep_length := 2\<rparr>))))) = [0, 1, 2]"
proof -
  let ?s = "(on_activate [])\<lparr>v_sweep_length := 2\<rparr> :: int stagecontrol"
  have h1: "\<not> abort ?s" by (simp add: on_activate_def)
  have h2: "no_fault ?s" by (simp add: no_fault_def on_activate_def)
  have h3: "pending ?s = []" by (simp add: on_activate_def)
  have h4: "0 < v_sweep_length ?s" by simp
  have h5: "length [5, 2, 8 :: int] = nat (v_sweep_length ?s) + 1" by simp
  have tr: "trace ?s = []" by (simp add: on_activate_def)
  have up: "[0..<2] = [0, Suc 0]" by (simp add: upt_conv_Cons)
  have big: "\<forall>j<nat 2. [5, 2, 8 :: int] ! j < [5, 2, 8] ! nat 2"
    by (simp add: less_Suc_eq nth_Cons' numeral_2_eq_2)
  from volt_sweep_sample_count [OF h1 h2 h3 h4 h5] tr big show ?thesis
    by (auto simp: up)
qed

subsection \<open>Abort and counter anomalies\<close>

text \<open>
  Claim C3. Once \<open>abort_optimisation\<close> has set the abort flag, the next sampling expiry
  stops the counter, the run issues no further motion or voltage command, in either sweep
  or between them, and the done signal is never emitted. Between the sweeps the code does
  otherwise: \<open>_start_volt_optimisation\<close> does not look at the flag. In the run
  \<open>optimise_z(1, 1)\<close> aborted while the timer for \<open>_start_volt_optimisation\<close> is
  pending, the next expiry still moves the z axis one step back and starts the counter;
  only the expiry after it stops the counter.
\<close>

theorem abort_between_phases_still_moves:
  "abort aborted_between_phases \<and>
   trace (dispatch (live_tick 7) aborted_between_phases) =
     trace aborted_between_phases @ [LogDebug, Hw (MoveSteps AxisZ (- 1)), StartCount] \<and>
   trace (run [live_tick 7, live_tick 8] aborted_between_phases) =
     trace aborted_between_phases @ [LogDebug, Hw (MoveSteps AxisZ (- 1)), StartCount, StopCount]"
  by (simp add: aborted_between_phases_def step_phase_done_eq sweep_defs act_defs)

text \<open>
  Claim C4. In both sampling loops an expiry that finds the counter not \<open>locked\<close> logs an
  error and ends the sweep without a move and without re-arming the timer, in the same way
  in both loops. The step loop does so; the voltage loop has no \<open>else\<close> branch and ends
  the sweep without logging anything.
\<close>

theorem volt_feed_anomaly_not_logged:
  "pending volt_sweep_running = [(100, VoltOptimisationStep)] \<and>
   trace (dispatch (TimerExpired ''idle'' 5) volt_sweep_running) = trace volt_sweep_running \<and>
   pending step_sweep_running = [(100, OptimisationStep)] \<and>
   trace (dispatch (TimerExpired ''idle'' 5) step_sweep_running) =
     trace step_sweep_running @ [LogError]"
  by (simp add: volt_sweep_running_def step_sweep_running_def sweep_defs act_defs)

subsection \<open>Offset voltage before motion\<close>

text \<open>
  Claim C5. Every operation that changes axis motion first sets the offset voltage of the
  moved axis to 0. \<open>_start_volt_optimisation\<close> does not: it moves the z axis back without
  writing the offset voltage. After a first voltage sweep has left the offset voltage at 1,
  a second \<open>optimise_z(0, 2)\<close> steps the z axis while its offset voltage is 1.
\<close>

theorem volt_sweep_moves_with_offset:
  "offset_writes AxisZ (trace after_first_volt_sweep) = [0, 1, 1] \<and>
   trace second_volt_sweep_started =
     trace after_first_volt_sweep @ [LogDebug, Hw (MoveSteps AxisZ (- 1)), StartCount] \<and>
   motion_with_offset (\<lambda>_. 0) (trace second_volt_sweep_started) = [MoveSteps AxisZ (- 1)]"
  by (simp add: second_volt_sweep_started_def after_first_volt_sweep_eq optimise_z_def
      start_volt_optimisation_def act_defs)

subsection \<open>Hardware faults of the configuration calls\<close>

text \<open>
  Claim C6, as stated: when the hardware query raises, \<open>get_axis_params\<close> passes the
  fault on to its caller. It does not: the function returns \<open>None\<close>.
\<close>

theorem get_axis_params_counterexample:
  "fst (get_axis_params AxisX (on_activate [Raises] :: int stagecontrol)) = Inr None \<and>
   fst (get_axis_params AxisX (on_activate [Raises] :: int stagecontrol)) \<noteq> Inl PositionerError"
  by (simp add: get_axis_params_def on_activate_def act_defs)

text \<open>
  Claim C6, amended. \<open>get_axis_params\<close> and \<open>set_axis_params\<close> are both wrapped in
  \<open>hwerror_handler\<close>: neither ever raises \<open>PositionerError\<close>. When a hardware call of
  \<open>get_axis_params\<close> raises (the first query or the second), the fault is logged and the
  function returns \<open>None\<close>, as \<open>set_axis_params\<close> does; when both queries succeed it
  returns the pair of their values.
\<close>

theorem get_axis_params_swallows_fault:
  "(\<exists>r. fst (get_axis_params ax s) = Inr r) \<and>
   (\<exists>r. fst (set_axis_params ax volt freq s) = Inr r) \<and>
   (hw_script s = Raises # rs \<longrightarrow>
      get_axis_params ax s =
        (Inr None, s\<lparr>hw_script := rs,
                     trace := trace s @ [Hw (GetAxisConfig ax Step_voltage), LogError]\<rparr>) \<and>
      set_axis_params ax volt freq s =
        (Inr None, s\<lparr>hw_script := rs,
                     trace := trace s @ [Hw (SetStepParams ax volt freq), LogError]\<rparr>)) \<and>
   (hw_script s = Returns v # Raises # rs \<longrightarrow>
      get_axis_params ax s =
        (Inr None, s\<lparr>hw_script := rs,
                     trace := trace s @ [Hw (GetAxisConfig ax Step_voltage),
                                         Hw (GetAxisConfig ax Frequency), LogError]\<rparr>)) \<and>
   (hw_script s = Returns v # Returns f # rs \<longrightarrow>
      get_axis_params ax s =
        (Inr (Some (v, f)), s\<lparr>hw_script := rs,
                     trace := trace s @ [Hw (GetAxisConfig ax Step_voltage),
                                         Hw (GetAxisConfig ax Frequency)]\<rparr>))"
  by (auto simp: get_axis_params_def set_axis_params_def act_defs
      split: list.splits hw_reply.splits)

theorem get_axis_params_swallows_fault_witness:
  "get_axis_params AxisX (on_activate [Raises] :: int stagecontrol) =
     (Inr None, (on_activate [Raises])\<lparr>hw_script := [],
         trace := [Hw (GetAxisConfig AxisX Step_voltage), LogError]\<rparr>) \<and>
   get_axis_params AxisX (on_activate [Returns 3, Raises] :: int stagecontrol) =
     (Inr None, (on_activate [Returns 3, Raises])\<lparr>hw_script := [],
         trace := [Hw (GetAxisConfig AxisX Step_voltage),
                   Hw (GetAxisConfig AxisX Frequency), LogError]\<rparr>) \<and>
   get_axis_params AxisX (on_activate [Returns 3, Returns 4] :: int stagecontrol) =
     (Inr (Some (3, 4)), (on_activate [Returns 3, Returns 4])\<lparr>hw_script := [],
         trace := [Hw (GetAxisConfig AxisX Step_voltage),
                   Hw (GetAxisConfig AxisX Frequency)]\<rparr>)"
proof -
  have a: "hw_script (on_activate [Raises] :: int stagecontrol) = Raises # []"
    by (simp add: on_activate_def)
  have b: "hw_script (on_activate [Returns 3, Raises] :: int stagecontrol) =
           Returns 3 # Raises # []"
    by (simp add: on_activate_def)
  have c: "hw_script (on_activate [Returns 3, Returns 4] :: int stagecontrol) =
           Returns 3 # Returns 4 # []"
    by (simp add: on_activate_def)
  have t: "trace (on_activate [Raises] :: int stagecontrol) = []"
          "trace (on_activate [Returns 3, Raises] :: int stagecontrol) = []"
          "trace (on_activate [Returns 3, Returns 4] :: int stagecontrol) = []"
    by (simp_all add: on_activate_def)
  from get_axis_params_swallows_fault
         [of AxisX "on_activate [Raises] :: int stagecontrol" 0 0 "[]" 0 0]
       get_axis_params_swallows_fault
         [of AxisX "on_activate [Returns 3, Raises] :: int stagecontrol" 0 0 "[]" 3 0]
       get_axis_params_swallows_fault
         [of AxisX "on_activate [Returns 3, Returns 4] :: int stagecontrol" 0 0 "[]" 3 4]
       a b c t
  show ?thesis by simp
qed

subsection \<open>Joystick\<close>

text \<open>
  Claim C8, as stated: the sample \<open>xIn = 1\<close>, \<open>yIn = 2\<close> falls into the pure-y branch,
  with desired x equal to 0. It does not: \<open>|yIn| > |2 * xIn|\<close> is \<open>2 > 2\<close>, which is
  false.
\<close>

theorem sector_boundary_counterexample:
  "required_motion 1 2 \<noteq> (0, sgn 2)"
  by (simp add: required_motion_def in_dead_zone_code power2_eq_square)

text \<open>
  Claim C8, amended. The sample \<open>xIn = 1\<close>, \<open>yIn = 2\<close> falls into the diagonal branch:
  the desired motion is \<open>sign(xIn) = 1\<close> on x and \<open>sign(yIn) = 1\<close> on y, and from rest
  both the y axis and the x axis are started.
\<close>

theorem sector_boundary_is_diagonal:
  "required_motion 1 2 = (1, 1) \<and>
   trace (snd (xbox_joystick_move \<lparr>x_left = 1, y_left = 2, y_right = 0\<rparr>
                 (on_activate [] :: int stagecontrol))) =
     [Hw (SetOffsetVoltage AxisY 0), Hw (StartContinuousMotion AxisY True),
      Hw (SetOffsetVoltage AxisX 0), Hw (StartContinuousMotion AxisX True)]"
  by (simp add: required_motion_def in_dead_zone_code power2_eq_square xbox_joystick_move_def
      start_jog_def stop_axis_def on_activate_def act_defs)

theorem sector_boundary_is_diagonal_witness:
  "fst (required_motion 1 2) = 1 \<and> snd (required_motion 1 2) = 1 \<and>
   Hw (StartContinuousMotion AxisX True) \<in>
     set (trace (snd (xbox_joystick_move \<lparr>x_left = 1, y_left = 2, y_right = 0\<rparr>
                        (on_activate [] :: int stagecontrol))))"
  using sector_boundary_is_diagonal by simp

text \<open>
  Claim C7, as stated: for every sequence of joystick samples each jog-state variable
  equals the direction last commanded to the positioner for its axis. \<open>start_jog\<close>
  swallows hardware faults, and the handler sets the variable whatever \<open>start_jog\<close>
  did: when the zeroing of the offset voltage raises, the start call is never made, yet
  the variable is set to 1.
\<close>

theorem joystick_fault_counterexample:
  "jog_running AxisY (snd (xbox_joystick_move \<lparr>x_left = 0, y_left = 0.9, y_right = 0\<rparr>
       (on_activate [Raises] :: int stagecontrol))) = 1 \<and>
   trace (snd (xbox_joystick_move \<lparr>x_left = 0, y_left = 0.9, y_right = 0\<rparr>
       (on_activate [Raises] :: int stagecontrol))) = [Hw (SetOffsetVoltage AxisY 0), LogError] \<and>
   commanded AxisY 0 (trace (snd (xbox_joystick_move \<lparr>x_left = 0, y_left = 0.9, y_right = 0\<rparr>
       (on_activate [Raises] :: int stagecontrol)))) = 0"
  by (simp add: xbox_joystick_move_blocks desired_def required_motion_def in_dead_zone_code
      power2_eq_square z_block_def stop_block_def start_block_def fire_def set_jog_def
      jog_running_def pair_events_def pair_script_def on_activate_def)

text \<open>
  Claim C7, amended. For every joystick sample, in every state and whatever the positioner
  answers: a start call for an axis is issued only when the desired direction is not 0 and
  differs from the sign of the recorded jog state, and it carries the desired direction; a
  stop call is issued only when the desired direction is 0 and the jog state is not 0;
  handling the same sample again changes nothing and issues no call. As long as no
  positioner call raises, after every sequence of samples since activation each jog state
  equals the direction last sent to the positioner for its axis.
\<close>

theorem joystick_edge_triggered:
  fixes s :: "'s stagecontrol"
  defines "after \<equiv> \<lambda>js (s :: 's stagecontrol). snd (xbox_joystick_move js s)"
  defines "calls \<equiv> \<lambda>js (s :: 's stagecontrol). drop (length (trace s)) (trace (after js s))"
  shows "(\<forall>a d. Hw (StartContinuousMotion a d) \<in> set (calls js s) \<longrightarrow>
            desired a js \<noteq> 0 \<and> desired a js \<noteq> of_int (sgn (jog_running a s)) \<and>
            of_int (jog_sign a d) = desired a js) \<and>
         (\<forall>a. Hw (StopAxis a) \<in> set (calls js s) \<longrightarrow>
            desired a js = 0 \<and> jog_running a s \<noteq> 0) \<and>
         xbox_joystick_move js (after js s) = (Inr (), after js s) \<and>
         calls js (after js s) = [] \<and>
         (Raises \<notin> set script \<longrightarrow>
            (\<forall>a. jog_running a (joystick_run samples (on_activate script :: 's stagecontrol)) =
                 commanded a 0 (trace (joystick_run samples (on_activate script :: 's stagecontrol)))))"
proof -
  have A: "\<forall>a d. Hw (StartContinuousMotion a d) \<in> set (calls js s) \<longrightarrow>
            desired a js \<noteq> 0 \<and> desired a js \<noteq> of_int (sgn (jog_running a s)) \<and>
            of_int (jog_sign a d) = desired a js"
    unfolding calls_def after_def using joystick_start_calls by blast
  have B: "\<forall>a. Hw (StopAxis a) \<in> set (calls js s) \<longrightarrow>
            desired a js = 0 \<and> jog_running a s \<noteq> 0"
    unfolding calls_def after_def using joystick_stop_calls by blast
  have C: "xbox_joystick_move js (after js s) = (Inr (), after js s)"
    unfolding after_def by (rule joystick_repeat)
  have D: "calls js (after js s) = []"
    unfolding calls_def by (simp add: C [unfolded after_def] after_def)
  have E: "Raises \<notin> set script \<longrightarrow>
            (\<forall>a. jog_running a (joystick_run samples (on_activate script :: 's stagecontrol)) =
                 commanded a 0 (trace (joystick_run samples (on_activate script :: 's stagecontrol))))"
  proof
    assume "Raises \<notin> set script"
    then have nf: "no_fault (on_activate script :: 's stagecontrol)"
      by (simp add: no_fault_def on_activate_def)
    from joystick_run_inv [OF nf on_activate_inv, of samples]
    show "\<forall>a. jog_running a (joystick_run samples (on_activate script :: 's stagecontrol)) =
                 commanded a 0 (trace (joystick_run samples (on_activate script :: 's stagecontrol)))"
      by blast
  qed
  from A B C D E show ?thesis by blast
qed

theorem joystick_edge_triggered_witness:
  "Hw (StartContinuousMotion AxisY True) \<in>
     set (trace (snd (xbox_joystick_move \<lparr>x_left = 0, y_left = 0.9, y_right = 0\<rparr>
                        (on_activate [] :: int stagecontrol)))) \<and>
   desired AxisY \<lparr>x_left = 0, y_left = 0.9, y_right = 0\<rparr> = 1 \<and>
   Hw (StopAxis AxisY) \<in>
     set (drop 2 (trace (snd (xbox_joystick_move \<lparr>x_left = 0, y_left = 0, y_right = 0\<rparr>
        (snd (xbox_joystick_move \<lparr>x_left = 0, y_left = 0.9, y_right = 0\<rparr>
                (on_activate [] :: int stagecontrol))))))) \<and>
   desired AxisY \<lparr>x_left = 0, y_left = 0, y_right = 0\<rparr> = 0 \<and>
   jog_running AxisY (joystick_run [\<lparr>x_left = 0, y_left = 0.9, y_right = 0\<rparr>]
                        (on_activate [] :: int stagecontrol)) = 1 \<and>
   commanded AxisY 0 (trace (joystick_run [\<lparr>x_left = 0, y_left = 0.9, y_right = 0\<rparr>]
                        (on_activate [] :: int stagecontrol))) = 1"
proof -
  let ?up = "\<lparr>x_left = 0, y_left = 0.9, y_right = 0\<rparr>"
  let ?zero = "\<lparr>x_left = 0, y_left = 0, y_right = 0\<rparr>"
  let ?s0 = "on_activate [] :: int stagecontrol"
  let ?s1 = "snd (xbox_joystick_move ?up ?s0)"
  have s1: "?s1 = ?s0\<lparr>y_joystick_jog_running := 1,
              trace := [Hw (SetOffsetVoltage AxisY 0), Hw (StartContinuousMotion AxisY True)]\<rparr>"
    by (simp add: xbox_joystick_move_blocks desired_def required_motion_def in_dead_zone_code
        power2_eq_square z_block_def stop_block_def start_block_def fire_def set_jog_def
        jog_running_def pair_events_def pair_script_def on_activate_def)
  have s2: "trace (snd (xbox_joystick_move ?zero ?s1)) =
              [Hw (SetOffsetVoltage AxisY 0), Hw (StartContinuousMotion AxisY True),
               Hw (StopAxis AxisY), Hw (SetOffsetVoltage AxisY 0)]"
    unfolding s1
    by (simp add: xbox_joystick_move_blocks desired_def required_motion_def in_dead_zone_code
        power2_eq_square z_block_def stop_block_def start_block_def fire_def set_jog_def
        jog_running_def pair_events_def pair_script_def on_activate_def)
  have t0: "trace ?s0 = []" by (simp add: on_activate_def)
  have t1: "length (trace ?s1) = 2" by (simp add: s1)
  have start: "Hw (StartContinuousMotion AxisY True) \<in>
                 set (drop (length (trace ?s0)) (trace ?s1))"
    by (simp add: t0 s1)
  have stop: "Hw (StopAxis AxisY) \<in>
                set (drop (length (trace ?s1)) (trace (snd (xbox_joystick_move ?zero ?s1))))"
    unfolding t1 s2 by simp
  have nr: "Raises \<notin> set []" by simp
  have j: "jog_running AxisY ?s0 = 0" by (simp add: on_activate_def jog_running_def)
  have js: "jog_sign AxisY True = 1" by (simp add: jog_sign_def)
  have run: "joystick_run [?up] ?s0 = ?s1" by (simp add: joystick_run_def)
  note up = joystick_edge_triggered
    [where js = ?up and s = ?s0 and script = "[]" and samples = "[?up]"]
  note zero = joystick_edge_triggered
    [where js = ?zero and s = ?s1 and script = "[]" and samples = "[]"]
  from up [THEN conjunct1, rule_format, OF start]
  have a: "desired AxisY ?up = 1" by (simp add: js)
  from up [THEN conjunct2, THEN conjunct2, THEN conjunct2, THEN conjunct2, rule_format, OF nr]
  have b: "jog_running AxisY (joystick_run [?up] ?s0) =
           commanded AxisY 0 (trace (joystick_run [?up] ?s0))" .
  from zero [THEN conjunct2, THEN conjunct1, rule_format, OF stop]
  have c: "desired AxisY ?zero = 0" by simp
  have d: "jog_running AxisY (joystick_run [?up] ?s0) = 1"
    unfolding run by (simp add: s1 jog_running_def)
  from a b c d start stop show ?thesis
    unfolding t0 t1 by simp
qed

end
